theory Spec2Isabelle
  imports Complex_Main "HOL-Library.Sublist" "HOL-Library.Word"
begin

section \<open>JavaScript strings\<close>

text \<open>
  A JavaScript string is modelled as the list of its code units, a \<^typ>\<open>string\<close>;
  \<open>length\<close> counts code units as \<open>.length\<close> does. Code units are taken below 256.
\<close>

definition isWhiteSpace :: "char \<Rightarrow> bool" where
  \<comment> \<open>the class \<open>\s\<close>, which is also what \<open>trim\<close> removes\<close>
  "isWhiteSpace c \<longleftrightarrow> of_char c \<in> {9, 10, 11, 12, 13, 32, 160 :: nat}"

definition trim :: "string \<Rightarrow> string" where
  "trim s = rev (dropWhile isWhiteSpace (rev (dropWhile isWhiteSpace s)))"

definition slice :: "string \<Rightarrow> nat \<Rightarrow> nat \<Rightarrow> string" where
  \<comment> \<open>\<open>s.slice(a, b)\<close> for indices that are not negative: empty when \<open>b \<le> a\<close>\<close>
  "slice s a b = take (b - a) (drop a s)"

definition lowerChar :: "char \<Rightarrow> char" where
  "lowerChar c =
     (let n = (of_char c :: nat)
      in if (65 \<le> n \<and> n \<le> 90) \<or> (192 \<le> n \<and> n \<le> 222 \<and> n \<noteq> 215)
         then char_of (n + 32) else c)"

definition toLowerCase :: "string \<Rightarrow> string" where
  "toLowerCase s = map lowerChar s"

fun includesStr :: "string \<Rightarrow> string \<Rightarrow> bool" where
  \<comment> \<open>\<open>s.includes(p)\<close>: \<open>p\<close> starts at some index of \<open>s\<close>\<close>
  "includesStr [] p = (p = [])"
| "includesStr (c # s) p = (prefix p (c # s) \<or> includesStr s p)"

fun splitOn :: "char \<Rightarrow> string \<Rightarrow> string \<Rightarrow> string list" where
  \<comment> \<open>\<open>s.split(sep)\<close> for a one-character separator; the second argument is the piece being read\<close>
  "splitOn sep cur [] = [rev cur]"
| "splitOn sep cur (c # s) =
     (if c = sep then rev cur # splitOn sep [] s else splitOn sep (c # cur) s)"

section \<open>Quality gate (quality.ts)\<close>

datatype SourceType = Article | Video | Pdf | Text | Tweet | Other

datatype InvalidReason =
    ContentTooShort SourceType nat
  | DetectedErrorPage "string list"
  | LowQualityContent

record ValidationResult =
  valid :: bool
  reason :: "InvalidReason option"
  truncated :: "bool option"

definition ERROR_PATTERNS :: "string list" where
  "ERROR_PATTERNS =
     [''access denied'', ''captcha'', ''please enable javascript'', ''cloudflare'',
      ''404'', ''not found'', ''sign in'', ''blocked'', ''rate limit'',
      ''subscribe to continue'', ''login required'', ''authorization required'',
      ''page not found'']"

fun MIN_LENGTHS :: "SourceType \<Rightarrow> nat" where
  "MIN_LENGTHS Article = 500"
| "MIN_LENGTHS Video = 100"
| "MIN_LENGTHS Pdf = 100"
| "MIN_LENGTHS Text = 20"
| "MIN_LENGTHS Tweet = 20"
| "MIN_LENGTHS Other = 100"

definition MAX_CONTENT_LENGTH :: nat where
  "MAX_CONTENT_LENGTH = 200000"

definition validateContent :: "string \<Rightarrow> SourceType \<Rightarrow> ValidationResult" where
  "validateContent content type =
     (let minLength = (if MIN_LENGTHS type = 0 then 100 else MIN_LENGTHS type)
      in if length content < minLength
         then \<lparr>valid = False, reason = Some (ContentTooShort type minLength), truncated = None\<rparr>
         else
          (let lower = toLowerCase content;
               errorSignals = filter (\<lambda>p. includesStr lower p) ERROR_PATTERNS
           in if 2 \<le> length errorSignals
              then \<lparr>valid = False, reason = Some (DetectedErrorPage (take 2 errorSignals)),
                     truncated = None\<rparr>
              else
               (let lines = filter (\<lambda>l. 0 < length (trim l)) (splitOn CHR 0x0A [] content);
                    longLines = filter (\<lambda>l. 80 < length l) lines
                in if type \<noteq> Tweet \<and> type \<noteq> Text \<and> 10 < length lines
                      \<and> 100 * length longLines < 15 * length lines
                   then \<lparr>valid = False, reason = Some LowQualityContent, truncated = None\<rparr>
                   else \<lparr>valid = True, reason = None,
                          truncated = Some (MAX_CONTENT_LENGTH < length content)\<rparr>)))"

text \<open>
  The ratio test \<open>longLines.length / lines.length < 0.15\<close> is written without division,
  as \<open>100 * long < 15 * n\<close>.
\<close>

definition detectErrorPage :: "string \<Rightarrow> bool" where
  "detectErrorPage content =
     (2 \<le> length (filter (\<lambda>p. includesStr (toLowerCase content) p) ERROR_PATTERNS))"

definition truncateContent :: "string \<Rightarrow> string" where
  "truncateContent content =
     (if length content \<le> MAX_CONTENT_LENGTH then content else slice content 0 MAX_CONTENT_LENGTH)"

text \<open>
  What the specification calls a case-insensitive substring match: some stretch of the
  content equals the phrase once both are lower-cased.
\<close>

definition occursIgnoringCase :: "string \<Rightarrow> string \<Rightarrow> bool" where
  "occursIgnoringCase phrase content \<longleftrightarrow>
     (\<exists>pre w post. content = pre @ w @ post \<and> toLowerCase w = toLowerCase phrase)"

definition rejectedAsErrorPage :: "ValidationResult \<Rightarrow> bool" where
  "rejectedAsErrorPage r \<longleftrightarrow>
     \<not> valid r \<and> (case reason r of Some (DetectedErrorPage _) \<Rightarrow> True | _ \<Rightarrow> False)"

section \<open>Embedding vectors as bytes (embeddings.ts)\<close>

text \<open>
  A typed array is a view on an \<open>ArrayBuffer\<close>: the buffer's bytes, a byte offset and a
  length. A \<open>Float32Array\<close> element is the four bytes at its place, read little-endian;
  it is kept as its 32-bit pattern, so equal patterns are equal floats. A Node \<open>Buffer\<close>
  is a byte view of the same kind.
\<close>

type_synonym byte = "8 word"

record Float32Array =
  f32_buffer :: "byte list"
  f32_byteOffset :: nat
  f32_length :: nat

record Buffer =
  buf_buffer :: "byte list"
  buf_byteOffset :: nat
  buf_byteLength :: nat

datatype js_error = Error string | RangeError | TypeError | SqliteError string

definition f32_get :: "Float32Array \<Rightarrow> nat \<Rightarrow> 32 word" where
  "f32_get a i = word_rcat (rev (take 4 (drop (f32_byteOffset a + 4 * i) (f32_buffer a))))"

definition f32_elements :: "Float32Array \<Rightarrow> 32 word list" where
  "f32_elements a = map (f32_get a) [0..<f32_length a]"

definition serializeFloat32 :: "Float32Array \<Rightarrow> Buffer" where
  \<comment> \<open>\<open>Buffer.from(arr.buffer)\<close>: a view of the whole backing buffer\<close>
  "serializeFloat32 arr =
     \<lparr>buf_buffer = f32_buffer arr, buf_byteOffset = 0,
      buf_byteLength = length (f32_buffer arr)\<rparr>"

definition deserializeFloat32 :: "Buffer \<Rightarrow> js_error + Float32Array" where
  \<comment> \<open>\<open>new Float32Array(buffer.buffer, buffer.byteOffset, buffer.byteLength / 4)\<close>:
      the offset must be a multiple of 4, the length is truncated to an integer, and the
      view must fit the buffer\<close>
  "deserializeFloat32 buffer =
     (let n = buf_byteLength buffer div 4
      in if buf_byteOffset buffer mod 4 \<noteq> 0 then Inl RangeError
         else if length (buf_buffer buffer) < buf_byteOffset buffer + 4 * n then Inl RangeError
         else Inr \<lparr>f32_buffer = buf_buffer buffer, f32_byteOffset = buf_byteOffset buffer,
                    f32_length = n\<rparr>)"

section \<open>Chunker (chunking.ts)\<close>

text \<open>
  \<open>ChunkOptions\<close> has three optional numbers; a missing one takes its value from
  \<open>DEFAULT_OPTIONS\<close>. Sizes are natural numbers.
\<close>

record ChunkOptions =
  opt_chunkSize :: "nat option"
  opt_overlap :: "nat option"
  opt_minChunk :: "nat option"

record ChunkDefaults =
  def_chunkSize :: nat
  def_overlap :: nat
  def_minChunk :: nat

definition DEFAULT_OPTIONS :: ChunkDefaults where
  "DEFAULT_OPTIONS = \<lparr>def_chunkSize = 800, def_overlap = 200, def_minChunk = 100\<rparr>"

definition isSentenceEnd :: "char \<Rightarrow> bool" where
  "isSentenceEnd c \<longleftrightarrow> c = CHR ''.'' \<or> c = CHR ''!'' \<or> c = CHR ''?''"

text \<open>
  \<open>SENTENCE_BOUNDARY.exec(window)\<close> for \<open>/(?<=[.!?])\s+/\<close>: the regular expression has no
  \<open>g\<close> flag, so the search starts at index 0 and returns the leftmost match, as its index
  and the length of the matched run of white space. The look-behind reads the character
  before the match inside \<open>window\<close>, so no match starts at index 0.
\<close>

fun sentenceBoundaryFrom :: "nat \<Rightarrow> string \<Rightarrow> (nat \<times> nat) option" where
  "sentenceBoundaryFrom i (p # c # rest) =
     (if isSentenceEnd p \<and> isWhiteSpace c
      then Some (Suc i, length (takeWhile isWhiteSpace (c # rest)))
      else sentenceBoundaryFrom (Suc i) (c # rest))"
| "sentenceBoundaryFrom i _ = None"

definition SENTENCE_BOUNDARY_exec :: "string \<Rightarrow> (nat \<times> nat) option" where
  "SENTENCE_BOUNDARY_exec window = sentenceBoundaryFrom 0 window"

text \<open>
  \<open>/\s\S*$/.exec(window)\<close>: the leftmost white-space character after which no white space
  follows up to the end of the window; the result is its index.
\<close>

fun wordBoundaryFrom :: "nat \<Rightarrow> string \<Rightarrow> nat option" where
  "wordBoundaryFrom i [] = None"
| "wordBoundaryFrom i (c # rest) =
     (if isWhiteSpace c \<and> list_all (\<lambda>d. \<not> isWhiteSpace d) rest then Some i
      else wordBoundaryFrom (Suc i) rest)"

definition wordBoundary_exec :: "string \<Rightarrow> nat option" where
  "wordBoundary_exec window = wordBoundaryFrom 0 window"

text \<open>
  The end of the chunk that starts at \<open>position\<close>: the body of the loop up to the value
  \<open>end\<close> has when the chunk is sliced. \<open>Math.max(position, end - overlap)\<close> is \<open>position\<close>
  when \<open>end - overlap\<close> is negative, as it is here with the subtraction of natural numbers.
\<close>

definition cutEnd :: "string \<Rightarrow> nat \<Rightarrow> nat \<Rightarrow> nat \<Rightarrow> nat" where
  "cutEnd text chunkSize overlap position =
     (let end = min (position + chunkSize) (length text)
      in if end < length text then
           (let windowEnd = min (end + overlap) (length text);
                windowStart = max position (end - overlap);
                window = slice text windowStart windowEnd
            in case SENTENCE_BOUNDARY_exec window of
                 Some (index, len) \<Rightarrow> windowStart + index + len
               | None \<Rightarrow>
                  (case wordBoundary_exec window of
                     Some index \<Rightarrow> windowStart + index + 1
                   | None \<Rightarrow> end))
         else end)"

text \<open>
  The \<open>while\<close> loop, with \<open>chunks\<close> and \<open>position\<close> as its state. It need not terminate
  (with \<open>chunkSize = 0\<close> the position may stay where it is), so it is a partial function:
  \<open>None\<close> is a loop that never ends.
\<close>

partial_function (option) chunkLoop ::
  "string \<Rightarrow> nat \<Rightarrow> nat \<Rightarrow> nat \<Rightarrow> string list \<Rightarrow> nat \<Rightarrow> (string list \<times> nat) option" where
  "chunkLoop text chunkSize overlap minChunk chunks position =
     (if position < length text then
        (let end = cutEnd text chunkSize overlap position;
             chunk = trim (slice text position end)
         in chunkLoop text chunkSize overlap minChunk
              (if minChunk \<le> length chunk then chunks @ [chunk] else chunks) end)
      else Some (chunks, position))"

declare chunkLoop.simps [code]

definition chunkSizeOf :: "ChunkOptions \<Rightarrow> nat" where
  "chunkSizeOf options = (case opt_chunkSize options of Some v \<Rightarrow> v | None \<Rightarrow> def_chunkSize DEFAULT_OPTIONS)"

definition overlapOf :: "ChunkOptions \<Rightarrow> nat" where
  "overlapOf options = (case opt_overlap options of Some v \<Rightarrow> v | None \<Rightarrow> def_overlap DEFAULT_OPTIONS)"

definition minChunkOf :: "ChunkOptions \<Rightarrow> nat" where
  "minChunkOf options = (case opt_minChunk options of Some v \<Rightarrow> v | None \<Rightarrow> def_minChunk DEFAULT_OPTIONS)"

definition chunkText :: "string \<Rightarrow> ChunkOptions \<Rightarrow> string list option" where
  "chunkText text options =
     (let chunkSize = chunkSizeOf options;
          overlap = overlapOf options;
          minChunk = minChunkOf options
      in case chunkLoop text chunkSize overlap minChunk [] 0 of
           None \<Rightarrow> None
         | Some (chunks, position) \<Rightarrow>
            (let lastEnd = position
             in if lastEnd < length text \<and> length text - lastEnd < minChunk then
                  (let remainder = trim (drop lastEnd text)
                   in if 0 < length remainder \<and> 0 < length chunks
                      then Some (butlast chunks @ [last chunks @ '' '' @ remainder])
                      else Some chunks)
                else Some chunks))"

text \<open>
  The specification's coverage property: the text is the chunks in order, each without
  some prefix of its own (the part it repeats from its neighbour).
\<close>

definition coversText :: "string list \<Rightarrow> string \<Rightarrow> bool" where
  "coversText chunks t \<longleftrightarrow>
     (\<exists>ks. length ks = length chunks \<and> concat (map2 drop ks chunks) = t)"

text \<open>
  The specification's words for the cut: a sentence-terminal boundary in a window is a
  white-space character right after \<open>.\<close>, \<open>!\<close> or \<open>?\<close>; the boundary matched there runs
  over the white space that follows.
\<close>

definition isSentenceBoundaryAt :: "string \<Rightarrow> nat \<Rightarrow> bool" where
  "isSentenceBoundaryAt w k \<longleftrightarrow>
     0 < k \<and> k < length w \<and> isSentenceEnd (w ! (k - 1)) \<and> isWhiteSpace (w ! k)"

definition isLastSentenceBoundaryAt :: "string \<Rightarrow> nat \<Rightarrow> bool" where
  "isLastSentenceBoundaryAt w k \<longleftrightarrow>
     isSentenceBoundaryAt w k \<and> list_all (\<lambda>j. \<not> isSentenceBoundaryAt w j) [Suc k..<length w]"

definition whiteSpaceRun :: "string \<Rightarrow> nat \<Rightarrow> nat" where
  "whiteSpaceRun w k = length (takeWhile isWhiteSpace (drop k w))"

definition isLastWhiteSpaceAt :: "string \<Rightarrow> nat \<Rightarrow> bool" where
  "isLastWhiteSpaceAt w k \<longleftrightarrow>
     k < length w \<and> isWhiteSpace (w ! k) \<and> list_all (\<lambda>d. \<not> isWhiteSpace d) (drop (Suc k) w)"

text \<open>The window of a chunk whose tentative end \<open>position + chunkSize\<close> is inside the text.\<close>

definition windowStartOf :: "string \<Rightarrow> nat \<Rightarrow> nat \<Rightarrow> nat \<Rightarrow> nat" where
  "windowStartOf text chunkSize overlap position = max position (position + chunkSize - overlap)"

definition windowOf :: "string \<Rightarrow> nat \<Rightarrow> nat \<Rightarrow> nat \<Rightarrow> string" where
  "windowOf text chunkSize overlap position =
     slice text (max position (position + chunkSize - overlap))
       (min (position + chunkSize + overlap) (length text))"

text \<open>
  The specification's words for the segments: the segments the loop cuts from \<open>position\<close>
  on, each from where the one before it ended to the cut made there, up to the end of the
  text; the chunks kept of a list of segments (trimmed, and at least \<open>minChunk\<close> long);
  and a text that ends in a short remainder: its last segment is shorter than \<open>minChunk\<close>
  and not blank, and a chunk was kept before it; and the chunks with a remainder appended
  to the last of them after a space.
\<close>

fun isLoopSegments :: "string \<Rightarrow> nat \<Rightarrow> nat \<Rightarrow> nat \<Rightarrow> string list \<Rightarrow> bool" where
  "isLoopSegments text chunkSize overlap position [] \<longleftrightarrow> length text \<le> position"
| "isLoopSegments text chunkSize overlap position (seg # segs) \<longleftrightarrow>
     position < length text
     \<and> seg = slice text position (cutEnd text chunkSize overlap position)
     \<and> isLoopSegments text chunkSize overlap (cutEnd text chunkSize overlap position) segs"

definition keptChunks :: "nat \<Rightarrow> string list \<Rightarrow> string list" where
  "keptChunks minChunk segs = filter (\<lambda>c. minChunk \<le> length c) (map trim segs)"

definition endsInShortRemainder :: "nat \<Rightarrow> string list \<Rightarrow> bool" where
  "endsInShortRemainder minChunk segs \<longleftrightarrow>
     segs \<noteq> [] \<and> length (last segs) < minChunk \<and> 0 < length (trim (last segs))
     \<and> 0 < length (keptChunks minChunk (butlast segs))"

definition appendRemainder :: "string list \<Rightarrow> string \<Rightarrow> string list" where
  "appendRemainder chunks remainder = butlast chunks @ [last chunks @ '' '' @ trim remainder]"

section \<open>URL normalisation and content cleaning (dedupe.ts)\<close>

text \<open>
  \<open>new URL(s)\<close>, \<open>u.searchParams.delete(name)\<close> and \<open>u.href\<close> belong to the platform, not
  to the repository; they are parameters. \<open>newURL\<close> is \<open>None\<close> where the constructor
  throws.
\<close>

record 'u url_api =
  newURL :: "string \<Rightarrow> 'u option"
  searchParamsDelete :: "string \<Rightarrow> 'u \<Rightarrow> 'u"
  href :: "'u \<Rightarrow> string"

definition TRACKING_PARAMS :: "string list" where
  "TRACKING_PARAMS =
     [''utm_source'', ''utm_medium'', ''utm_campaign'', ''utm_content'', ''utm_term'',
      ''fbclid'', ''igshid'', ''ref'', ''s'', ''t'', ''_ga'', ''_gl'', ''gclid'', ''msclkid'']"

definition hasHttpScheme :: "string \<Rightarrow> bool" where
  \<comment> \<open>\<open>/^https?:\/\//i.test(s)\<close>\<close>
  "hasHttpScheme s \<longleftrightarrow> prefix ''http://'' (toLowerCase s) \<or> prefix ''https://'' (toLowerCase s)"

definition stripWww :: "string \<Rightarrow> string" where
  \<comment> \<open>\<open>s.replace(/^(https?:\/\/)www\./i, '$1')\<close>\<close>
  "stripWww s =
     (if prefix ''https://www.'' (toLowerCase s) then take 8 s @ drop 12 s
      else if prefix ''http://www.'' (toLowerCase s) then take 7 s @ drop 11 s
      else s)"

fun replaceFirstIgnoreCase :: "string \<Rightarrow> string \<Rightarrow> string \<Rightarrow> string" where
  \<comment> \<open>\<open>s.replace(/pat/i, rep)\<close> for a literal, lower-case, non-empty \<open>pat\<close>: the leftmost match only\<close>
  "replaceFirstIgnoreCase pat rep [] = []"
| "replaceFirstIgnoreCase pat rep (c # s) =
     (if prefix pat (toLowerCase (c # s)) then rep @ drop (length pat) (c # s)
      else c # replaceFirstIgnoreCase pat rep s)"

definition stripTrailingSlash :: "string \<Rightarrow> string" where
  \<comment> \<open>\<open>s.replace(/\/$/, '')\<close>\<close>
  "stripTrailingSlash s = (if s \<noteq> [] \<and> last s = CHR ''/'' then butlast s else s)"

fun indexOf :: "string \<Rightarrow> char \<Rightarrow> nat option" where
  \<comment> \<open>\<open>s.indexOf(c)\<close>; \<open>None\<close> is \<open>-1\<close>\<close>
  "indexOf [] c = None"
| "indexOf (x # xs) c = (if x = c then Some 0 else map_option Suc (indexOf xs c))"

definition normalizeUrl_try :: "'u url_api \<Rightarrow> string \<Rightarrow> js_error + string" where
  \<comment> \<open>the \<open>try\<close> block of \<open>normalizeUrl\<close>\<close>
  "normalizeUrl_try api url =
     (let normalized = trim url;
          normalized = (if \<not> hasHttpScheme normalized then ''https://'' @ normalized else normalized)
      in case newURL api normalized of
           None \<Rightarrow> Inl TypeError
         | Some u0 \<Rightarrow>
            (let u = fold (searchParamsDelete api) TRACKING_PARAMS u0;
                 normalized = href api u;
                 normalized = stripWww normalized;
                 normalized = replaceFirstIgnoreCase ''://x.com/'' ''://twitter.com/'' normalized;
                 normalized = stripTrailingSlash normalized
             in case indexOf normalized CHR ''#'' of
                  Some hashIdx \<Rightarrow> Inr (slice normalized 0 hashIdx)
                | None \<Rightarrow> Inr normalized))"

definition normalizeUrl :: "'u url_api \<Rightarrow> string \<Rightarrow> string" where
  "normalizeUrl api url = (case normalizeUrl_try api url of Inr normalized \<Rightarrow> normalized | Inl err \<Rightarrow> url)"

definition areUrlsEquivalent :: "'u url_api \<Rightarrow> string \<Rightarrow> string \<Rightarrow> bool" where
  "areUrlsEquivalent api url1 url2 \<longleftrightarrow> normalizeUrl api url1 = normalizeUrl api url2"

text \<open>
  What the platform's parser gives for a string: its \<open>href\<close> once the tracking
  parameters are deleted.
\<close>

definition hrefWithoutTracking :: "'u url_api \<Rightarrow> string \<Rightarrow> string option" where
  "hrefWithoutTracking api s =
     map_option (\<lambda>u. href api (fold (searchParamsDelete api) TRACKING_PARAMS u)) (newURL api s)"

text \<open>
  An instance of the platform for strings that are serialised URLs already and carry no
  query: parsing keeps the string, there is no parameter to delete, \<open>href\<close> returns it.
\<close>

definition serialisedUrlApi :: "string url_api" where
  "serialisedUrlApi = \<lparr>newURL = Some, searchParamsDelete = (\<lambda>name u. u), href = (\<lambda>u. u)\<rparr>"

fun crlfToLf :: "string \<Rightarrow> string" where
  \<comment> \<open>\<open>s.replace(/\r\n/g, '\n')\<close>\<close>
  "crlfToLf (c # d # s) =
     (if c = CHR 0x0D \<and> d = CHR 0x0A then CHR 0x0A # crlfToLf s else c # crlfToLf (d # s))"
| "crlfToLf s = s"

definition crToLf :: "string \<Rightarrow> string" where
  \<comment> \<open>\<open>s.replace(/\r/g, '\n')\<close>\<close>
  "crToLf s = map (\<lambda>c. if c = CHR 0x0D then CHR 0x0A else c) s"

fun collapseNewlines :: "nat \<Rightarrow> string \<Rightarrow> string" where
  \<comment> \<open>\<open>s.replace(/\n{3,}/g, '\n\n')\<close>; the first argument counts the line feeds of the run being read\<close>
  "collapseNewlines n [] = replicate (min n 2) CHR 0x0A"
| "collapseNewlines n (c # s) =
     (if c = CHR 0x0A then collapseNewlines (Suc n) s
      else replicate (min n 2) CHR 0x0A @ c # collapseNewlines 0 s)"

definition cleanContent :: "string \<Rightarrow> string" where
  "cleanContent content = trim (collapseNewlines 0 (crToLf (crlfToLf content)))"


section \<open>Process, file system and database state\<close>

text \<open>
  The lock directory is a map from file names to files, a file being its content and
  its modification time in milliseconds. The storage module's \<open>db\<close> variable is \<open>None\<close>
  until \<open>initKBTables\<close> has run; the tables are lists of rows in insertion order. A
  timestamp is the clock value in milliseconds, and a stored embedding is the vector of
  numbers its bytes encode.
\<close>

record lock_file =
  lf_content :: string
  lf_mtimeMs :: int

record KBSource =
  s_id :: string
  s_url :: "string option"
  s_title :: "string option"
  s_source_type :: SourceType
  s_summary :: "string option"
  s_raw_content :: string
  s_content_hash :: string
  s_tags :: "string list option"
  s_created_at :: int
  s_updated_at :: int

record KBChunk =
  c_id :: nat
  c_source_id :: string
  c_chunk_index :: nat
  c_content :: string
  c_embedding :: "real list option"
  c_embedding_dim :: "nat option"
  c_embedding_provider :: "string option"
  c_embedding_model :: "string option"
  c_created_at :: int

record database =
  kb_sources :: "KBSource list"
  kb_chunks :: "KBChunk list"
  next_chunk_id :: nat

record world =
  lockFiles :: "string \<rightharpoonup> lock_file"
  db :: "database option"
  ollamaAvailable :: bool

record ExtractedContent =
  e_title :: string
  e_content :: string

text \<open>
  What a call takes from outside the repository: the URL parser, the process id, the
  clock, whether signal 0 reaches a process, SHA-256, the id drawn for a new source, the
  three extractors (each may return nothing, or throw) and the embedding returned for
  the \<open>i\<close>-th text of a batch.
\<close>

record 'u env =
  urlApi :: "'u url_api"
  pid :: nat
  now :: int
  processAlive :: "int \<Rightarrow> bool"
  sha256 :: "string \<Rightarrow> string"
  newSourceId :: string
  extractArticle :: "string \<Rightarrow> js_error + ExtractedContent option"
  extractVideoTranscript :: "string \<Rightarrow> js_error + ExtractedContent option"
  extractTweet :: "string \<Rightarrow> js_error + ExtractedContent option"
  embed :: "nat \<Rightarrow> string \<Rightarrow> real list option"

section \<open>Cross-process lock (locks.ts)\<close>

definition STALE_AGE_MS :: int where
  "STALE_AGE_MS = 15 * 60 * 1000"

definition isDigit :: "char \<Rightarrow> bool" where
  "isDigit c \<longleftrightarrow> 48 \<le> (of_char c :: nat) \<and> (of_char c :: nat) \<le> 57"

definition parseInt10 :: "string \<Rightarrow> int option" where
  \<comment> \<open>\<open>parseInt(s, 10)\<close>: white space, a sign, then digits; \<open>None\<close> is \<open>NaN\<close>\<close>
  "parseInt10 s =
     (let t = dropWhile isWhiteSpace s;
          negative = (t \<noteq> [] \<and> hd t = CHR ''-'');
          t = (if t \<noteq> [] \<and> (hd t = CHR ''-'' \<or> hd t = CHR ''+'') then tl t else t);
          digits = takeWhile isDigit t;
          n = foldl (\<lambda>a d. 10 * a + (int (of_char d) - 48)) 0 digits
      in if digits = [] then None else Some (if negative then - n else n))"

function toStringNat :: "nat \<Rightarrow> string" where
  \<comment> \<open>\<open>n.toString()\<close> for a natural number\<close>
  "toStringNat n =
     (if n < 10 then [char_of (48 + n)] else toStringNat (n div 10) @ [char_of (48 + n mod 10)])"
  by pat_completeness auto
termination
  by (relation "measure (\<lambda>n. n)") auto

declare toStringNat.simps [simp del]

definition kill0 :: "'u env \<Rightarrow> int option \<Rightarrow> js_error + unit" where
  \<comment> \<open>\<open>process.kill(pid, 0)\<close>: throws for \<open>NaN\<close> and for a process the signal does not reach\<close>
  "kill0 env lockPid =
     (case lockPid of
        None \<Rightarrow> Inl TypeError
      | Some p \<Rightarrow> if processAlive env p then Inr () else Inl (Error ''kill ESRCH''))"

definition lockProbe :: "'u env \<Rightarrow> lock_file \<Rightarrow> js_error + unit" where
  \<comment> \<open>the \<open>try\<close> block of \<open>acquire\<close>: its last statement throws\<close>
  "lockProbe env file =
     (let lockPid = parseInt10 (lf_content file)
      in case kill0 env lockPid of
           Inl err \<Rightarrow> Inl err
         | Inr _ \<Rightarrow> Inl (Error ''Lock file exists and process is still running''))"

definition unlinkSync :: "string \<Rightarrow> world \<Rightarrow> world" where
  "unlinkSync lockFile w = w\<lparr>lockFiles := (lockFiles w)(lockFile := None)\<rparr>"

definition writeFileSync :: "'u env \<Rightarrow> string \<Rightarrow> string \<Rightarrow> world \<Rightarrow> world" where
  "writeFileSync env lockFile data w =
     w\<lparr>lockFiles := (lockFiles w)(lockFile \<mapsto> \<lparr>lf_content = data, lf_mtimeMs = now env\<rparr>)\<rparr>"

definition acquire :: "'u env \<Rightarrow> string \<Rightarrow> world \<Rightarrow> js_error + world" where
  "acquire env operation w =
     (let lockFile = operation @ ''.lock'';
          w1 = (case lockFiles w lockFile of
                  None \<Rightarrow> w
                | Some stat \<Rightarrow>
                   (let age = now env - lf_mtimeMs stat
                    in if age > STALE_AGE_MS then unlinkSync lockFile w
                       else (case lockProbe env stat of
                               Inl err \<Rightarrow> unlinkSync lockFile w
                             | Inr _ \<Rightarrow> w)))
      in Inr (writeFileSync env lockFile (toStringNat (pid env)) w1))"

definition release :: "string \<Rightarrow> world \<Rightarrow> world" where
  \<comment> \<open>the function \<open>acquire\<close> returns\<close>
  "release operation w =
     (let lockFile = operation @ ''.lock''
      in if lockFiles w lockFile \<noteq> None then unlinkSync lockFile w else w)"

definition isStale :: "'u env \<Rightarrow> string \<Rightarrow> world \<Rightarrow> bool" where
  "isStale env lockPath w =
     (case lockFiles w lockPath of
        None \<Rightarrow> False
      | Some stat \<Rightarrow> now env - lf_mtimeMs stat > STALE_AGE_MS)"

section \<open>Storage (storage.ts)\<close>

definition notInitialized :: js_error where
  "notInitialized = Error ''Database not initialized''"

definition getSourceByHash :: "string \<Rightarrow> world \<Rightarrow> js_error + KBSource option" where
  "getSourceByHash contentHash w =
     (case db w of
        None \<Rightarrow> Inl notInitialized
      | Some d \<Rightarrow> Inr (find (\<lambda>row. s_content_hash row = contentHash) (kb_sources d)))"

definition getSourceByUrl :: "string \<Rightarrow> world \<Rightarrow> js_error + KBSource option" where
  "getSourceByUrl url w =
     (case db w of
        None \<Rightarrow> Inl notInitialized
      | Some d \<Rightarrow> Inr (find (\<lambda>row. s_url row = Some url) (kb_sources d)))"

record SourceInput =
  i_url :: "string option"
  i_title :: "string option"
  i_source_type :: SourceType
  i_summary :: "string option"
  i_raw_content :: string
  i_content_hash :: string
  i_tags :: "string list option"

definition createSource :: "'u env \<Rightarrow> SourceInput \<Rightarrow> world \<Rightarrow> (js_error + KBSource) \<times> world" where
  \<comment> \<open>the \<open>INSERT\<close> fails on a primary key or a content hash that a row has already\<close>
  "createSource env source w =
     (case db w of
        None \<Rightarrow> (Inl notInitialized, w)
      | Some d \<Rightarrow>
         (let row = \<lparr>s_id = newSourceId env, s_url = i_url source, s_title = i_title source,
                     s_source_type = i_source_type source, s_summary = i_summary source,
                     s_raw_content = i_raw_content source, s_content_hash = i_content_hash source,
                     s_tags = i_tags source, s_created_at = now env, s_updated_at = now env\<rparr>
          in if list_ex (\<lambda>r. s_id r = s_id row \<or> s_content_hash r = s_content_hash row) (kb_sources d)
             then (Inl (SqliteError ''UNIQUE constraint failed''), w)
             else (Inr row, w\<lparr>db := Some (d\<lparr>kb_sources := kb_sources d @ [row]\<rparr>)\<rparr>)))"

record SourceUpdates =
  u_url :: "string option"
  u_title :: "string option"
  u_summary :: "string option"
  u_raw_content :: "string option"
  u_content_hash :: "string option"
  u_tags :: "string list option"

definition applyUpdates :: "'u env \<Rightarrow> SourceUpdates \<Rightarrow> KBSource \<Rightarrow> KBSource" where
  "applyUpdates env updates row =
     row\<lparr>s_url := (case u_url updates of Some v \<Rightarrow> Some v | None \<Rightarrow> s_url row),
         s_title := (case u_title updates of Some v \<Rightarrow> Some v | None \<Rightarrow> s_title row),
         s_summary := (case u_summary updates of Some v \<Rightarrow> Some v | None \<Rightarrow> s_summary row),
         s_raw_content := (case u_raw_content updates of Some v \<Rightarrow> v | None \<Rightarrow> s_raw_content row),
         s_content_hash := (case u_content_hash updates of Some v \<Rightarrow> v | None \<Rightarrow> s_content_hash row),
         s_tags := (case u_tags updates of Some v \<Rightarrow> Some v | None \<Rightarrow> s_tags row),
         s_updated_at := now env\<rparr>"

definition updateSource :: "'u env \<Rightarrow> string \<Rightarrow> SourceUpdates \<Rightarrow> world \<Rightarrow> (js_error + unit) \<times> world" where
  \<comment> \<open>the \<open>UPDATE\<close> fails when it would give the row the content hash of another row\<close>
  "updateSource env ident updates w =
     (case db w of
        None \<Rightarrow> (Inl notInitialized, w)
      | Some d \<Rightarrow>
         if u_url updates = None \<and> u_title updates = None \<and> u_summary updates = None
            \<and> u_raw_content updates = None \<and> u_content_hash updates = None \<and> u_tags updates = None
         then (Inr (), w)
         else if list_ex (\<lambda>r. s_id r = ident) (kb_sources d)
                 \<and> list_ex (\<lambda>r. s_id r \<noteq> ident \<and> Some (s_content_hash r) = u_content_hash updates)
                      (kb_sources d)
         then (Inl (SqliteError ''UNIQUE constraint failed''), w)
         else (Inr (),
               w\<lparr>db := Some (d\<lparr>kb_sources :=
                    map (\<lambda>r. if s_id r = ident then applyUpdates env updates r else r) (kb_sources d)\<rparr>)\<rparr>))"

definition deleteChunksBySourceId :: "string \<Rightarrow> world \<Rightarrow> (js_error + unit) \<times> world" where
  "deleteChunksBySourceId sourceId w =
     (case db w of
        None \<Rightarrow> (Inl notInitialized, w)
      | Some d \<Rightarrow>
         (Inr (), w\<lparr>db := Some (d\<lparr>kb_chunks := filter (\<lambda>c. c_source_id c \<noteq> sourceId) (kb_chunks d)\<rparr>)\<rparr>))"

record ChunkInput =
  ci_source_id :: string
  ci_chunk_index :: nat
  ci_content :: string
  ci_embedding :: "real list option"
  ci_embedding_dim :: "nat option"
  ci_embedding_provider :: "string option"
  ci_embedding_model :: "string option"

definition createChunk :: "'u env \<Rightarrow> ChunkInput \<Rightarrow> world \<Rightarrow> (js_error + KBChunk) \<times> world" where
  \<comment> \<open>the \<open>INSERT\<close> fails when no source has the chunk's \<open>source_id\<close> (foreign key)\<close>
  "createChunk env chunk w =
     (case db w of
        None \<Rightarrow> (Inl notInitialized, w)
      | Some d \<Rightarrow>
         if \<not> list_ex (\<lambda>r. s_id r = ci_source_id chunk) (kb_sources d)
         then (Inl (SqliteError ''FOREIGN KEY constraint failed''), w)
         else
          (let row = \<lparr>c_id = next_chunk_id d, c_source_id = ci_source_id chunk,
                      c_chunk_index = ci_chunk_index chunk, c_content = ci_content chunk,
                      c_embedding = ci_embedding chunk, c_embedding_dim = ci_embedding_dim chunk,
                      c_embedding_provider = ci_embedding_provider chunk,
                      c_embedding_model = ci_embedding_model chunk, c_created_at = now env\<rparr>
           in (Inr row,
               w\<lparr>db := Some (d\<lparr>kb_chunks := kb_chunks d @ [row],
                                next_chunk_id := Suc (next_chunk_id d)\<rparr>)\<rparr>)))"

section \<open>Ingestion (ingest.ts)\<close>

record IngestOptions =
  o_url :: "string option"
  o_content :: "string option"
  o_title :: "string option"
  o_sourceType :: "SourceType option"
  o_tags :: "string list option"

datatype IngestFailureReason =
  duplicate_url | duplicate_hash | extraction_failed | validation_failed | unknown

datatype error_detail =
    Message string
  | ValidationReason "InvalidReason option"
  | Thrown js_error

record IngestResult =
  r_success :: bool
  r_source_id :: "string option"
  r_chunks_count :: "nat option"
  r_error :: "error_detail option"
  r_reason :: "IngestFailureReason option"
  r_existingSourceId :: "string option"
  r_updated :: "bool option"

definition failed :: "IngestFailureReason \<Rightarrow> error_detail \<Rightarrow> string option \<Rightarrow> IngestResult" where
  "failed why detail existing =
     \<lparr>r_success = False, r_source_id = None, r_chunks_count = None, r_error = Some detail,
      r_reason = Some why, r_existingSourceId = existing, r_updated = None\<rparr>"

definition KB_CONFIG :: ChunkOptions where
  \<comment> \<open>\<open>config.KB_CHUNK_SIZE\<close>, \<open>config.KB_CHUNK_OVERLAP\<close>, \<open>config.KB_MIN_CHUNK\<close>\<close>
  "KB_CONFIG = \<lparr>opt_chunkSize = Some 800, opt_overlap = Some 200, opt_minChunk = Some 50\<rparr>"

definition dropPrefixIgnoreCase :: "string \<Rightarrow> string \<Rightarrow> string option" where
  "dropPrefixIgnoreCase p s = (if prefix p (toLowerCase s) then Some (drop (length p) s) else None)"

definition skipOptional :: "string \<Rightarrow> string \<Rightarrow> string" where
  "skipOptional p s = (case dropPrefixIgnoreCase p s of Some r \<Rightarrow> r | None \<Rightarrow> s)"

definition skipSchemeAndWww :: "string \<Rightarrow> string" where
  \<comment> \<open>\<open>^(?:https?:\/\/)?(?:www\.)?\<close>\<close>
  "skipSchemeAndWww s =
     skipOptional ''www.''
       (case dropPrefixIgnoreCase ''https://'' s of Some r \<Rightarrow> r | None \<Rightarrow> skipOptional ''http://'' s)"

definition isWordChar :: "char \<Rightarrow> bool" where
  "isWordChar c \<longleftrightarrow>
     (let n = (of_char c :: nat)
      in (48 \<le> n \<and> n \<le> 57) \<or> (65 \<le> n \<and> n \<le> 90) \<or> (97 \<le> n \<and> n \<le> 122) \<or> n = 95)"

definition isTweetUrl :: "string \<Rightarrow> bool" where
  \<comment> \<open>\<open>/^(?:https?:\/\/)?(?:www\.)?(?:twitter|x)\.com\/[\w]+\/status\/[\d]+/i\<close>\<close>
  "isTweetUrl url =
     (let s = skipSchemeAndWww url
      in case (case dropPrefixIgnoreCase ''twitter.com/'' s of
                 Some r \<Rightarrow> Some r
               | None \<Rightarrow> dropPrefixIgnoreCase ''x.com/'' s) of
           None \<Rightarrow> False
         | Some r \<Rightarrow>
            takeWhile isWordChar r \<noteq> []
            \<and> (case dropPrefixIgnoreCase ''/status/'' (dropWhile isWordChar r) of
                 None \<Rightarrow> False
               | Some t \<Rightarrow> t \<noteq> [] \<and> isDigit (hd t)))"

definition isVideoUrl :: "string \<Rightarrow> bool" where
  \<comment> \<open>\<open>/^(?:https?:\/\/)?(?:www\.)?(?:youtube\.com\/watch\?v=|youtu\.be\/)[\w-]+/i\<close>\<close>
  "isVideoUrl url =
     (let s = skipSchemeAndWww url
      in case (case dropPrefixIgnoreCase ''youtube.com/watch?v='' s of
                 Some r \<Rightarrow> Some r
               | None \<Rightarrow> dropPrefixIgnoreCase ''youtu.be/'' s) of
           None \<Rightarrow> False
         | Some r \<Rightarrow> r \<noteq> [] \<and> (isWordChar (hd r) \<or> hd r = CHR ''-''))"

definition detectSourceType :: "string \<Rightarrow> SourceType" where
  "detectSourceType url =
     (if isTweetUrl url then Tweet
      else if isVideoUrl url then Video
      else if suffix ''.pdf'' (toLowerCase url) then Pdf
      else Article)"

definition extractContent :: "'u env \<Rightarrow> string \<Rightarrow> SourceType \<Rightarrow> js_error + ExtractedContent option" where
  "extractContent env url type =
     (case type of
        Article \<Rightarrow> extractArticle env url
      | Video \<Rightarrow> extractVideoTranscript env url
      | Pdf \<Rightarrow> Inr None
      | Text \<Rightarrow> Inr None
      | Tweet \<Rightarrow> extractTweet env url
      | Other \<Rightarrow> extractArticle env url)"

definition generateContentHash :: "'u env \<Rightarrow> string \<Rightarrow> string" where
  "generateContentHash env content = sha256 env (trim content)"

definition generateEmbeddingsBatch :: "'u env \<Rightarrow> string list \<Rightarrow> real list option list" where
  "generateEmbeddingsBatch env texts = map (\<lambda>(i, t). embed env i t) (enumerate 0 texts)"

fun storeChunks ::
  "'u env \<Rightarrow> string \<Rightarrow> nat \<Rightarrow> (string \<times> real list option) list \<Rightarrow> nat \<Rightarrow> world
     \<Rightarrow> (js_error + nat) \<times> world" where
  \<comment> \<open>the loop over \<open>i\<close> that stores \<open>chunks[i]\<close> when \<open>embeddings[i]\<close> is there\<close>
  "storeChunks env sourceId i [] chunksStored w = (Inr chunksStored, w)"
| "storeChunks env sourceId i ((chunk, emb) # rest) chunksStored w =
     (case emb of
        None \<Rightarrow> storeChunks env sourceId (Suc i) rest chunksStored w
      | Some e \<Rightarrow>
         (case createChunk env
                 \<lparr>ci_source_id = sourceId, ci_chunk_index = i, ci_content = chunk,
                  ci_embedding = Some e, ci_embedding_dim = Some (length e),
                  ci_embedding_provider = Some ''ollama'',
                  ci_embedding_model = Some ''nomic-embed-text''\<rparr> w of
            (Inl err, w') \<Rightarrow> (Inl err, w')
          | (Inr row, w') \<Rightarrow> storeChunks env sourceId (Suc i) rest (Suc chunksStored) w'))"

record IngestParams =
  p_url :: "string option"
  p_title :: "string option"
  p_content :: string
  p_sourceType :: SourceType
  p_tags :: "string list option"
  p_existingSource :: "KBSource option"

text \<open>
  A function that awaits returns \<open>None\<close> when it never settles, and otherwise what it
  threw or returned together with the state it left.
\<close>

definition finishIngestion ::
  "'u env \<Rightarrow> IngestParams \<Rightarrow> world \<Rightarrow> ((js_error + IngestResult) \<times> world) option" where
  "finishIngestion env params w =
     (let cleanedContent = cleanContent (p_content params);
          validation = validateContent cleanedContent (p_sourceType params)
      in if \<not> valid validation
         then Some (Inr (failed validation_failed (ValidationReason (reason validation)) None), w)
         else
          (let finalContent = (if truncated validation = Some True
                               then slice cleanedContent 0 MAX_CONTENT_LENGTH else cleanedContent);
               contentHash = generateContentHash env finalContent
           in case (case p_existingSource params of
                      None \<Rightarrow> getSourceByHash contentHash w
                    | Some existing \<Rightarrow> Inr None) of
                Inl err \<Rightarrow> Some (Inl err, w)
              | Inr (Some existingByHash) \<Rightarrow>
                 Some (Inr (failed duplicate_hash (Message ''Duplicate content (same hash)'')
                              (Some (s_id existingByHash))), w)
              | Inr None \<Rightarrow>
                 (case (case p_existingSource params of
                          Some existing \<Rightarrow>
                           (case updateSource env (s_id existing)
                                   \<lparr>u_url = p_url params, u_title = p_title params, u_summary = None,
                                    u_raw_content = Some finalContent, u_content_hash = Some contentHash,
                                    u_tags = p_tags params\<rparr> w of
                              (Inl err, w1) \<Rightarrow> (Inl err, w1)
                            | (Inr done, w1) \<Rightarrow>
                               (Inr (existing\<lparr>s_url := p_url params, s_title := p_title params,
                                       s_raw_content := finalContent, s_content_hash := contentHash,
                                       s_tags := p_tags params\<rparr>), w1))
                        | None \<Rightarrow>
                           createSource env
                             \<lparr>i_url = p_url params,
                              i_title = (if p_title params = None \<or> p_title params = Some []
                                         then Some ''Untitled'' else p_title params),
                              i_source_type = p_sourceType params, i_summary = None,
                              i_raw_content = finalContent, i_content_hash = contentHash,
                              i_tags = p_tags params\<rparr> w) of
                    (Inl err, w1) \<Rightarrow> Some (Inl err, w1)
                  | (Inr source, w1) \<Rightarrow>
                     (case chunkText finalContent KB_CONFIG of
                        None \<Rightarrow> None
                      | Some chunks \<Rightarrow>
                         (let w2 = w1\<lparr>ollamaAvailable := True\<rparr>;
                              embeddings = generateEmbeddingsBatch env chunks
                          in case storeChunks env (s_id source) 0 (zip chunks embeddings) 0 w2 of
                               (Inl err, w3) \<Rightarrow> Some (Inl err, w3)
                             | (Inr chunksStored, w3) \<Rightarrow>
                                Some (Inr \<lparr>r_success = True, r_source_id = Some (s_id source),
                                          r_chunks_count = Some chunksStored, r_error = None,
                                          r_reason = None, r_existingSourceId = None,
                                          r_updated = Some (p_existingSource params \<noteq> None)\<rparr>,
                                      w3))))))"

definition duplicateUrlResult :: "KBSource \<Rightarrow> IngestResult" where
  "duplicateUrlResult existing = failed duplicate_url (Message ''URL already ingested'') (Some (s_id existing))"

definition ingestUrl_try ::
  "'u env \<Rightarrow> string \<Rightarrow> IngestOptions \<Rightarrow> bool \<Rightarrow> world \<Rightarrow> ((js_error + IngestResult) \<times> world) option" where
  \<comment> \<open>the \<open>try\<close> block of \<open>ingestUrlInternal\<close>\<close>
  "ingestUrl_try env url options forceUpdate w =
     (let normalizedUrl = normalizeUrl (urlApi env) url
      in case getSourceByUrl normalizedUrl w of
           Inl err \<Rightarrow> Some (Inl err, w)
         | Inr existingByUrl \<Rightarrow>
            (case (case existingByUrl of
                     None \<Rightarrow> (Inr None, w)
                   | Some existing \<Rightarrow>
                      if forceUpdate
                      then (case deleteChunksBySourceId (s_id existing) w of
                              (Inl err, w1) \<Rightarrow> (Inl err, w1)
                            | (Inr done, w1) \<Rightarrow> (Inr None, w1))
                      else (Inr (Some (duplicateUrlResult existing)), w)) of
               (Inl err, w1) \<Rightarrow> Some (Inl err, w1)
             | (Inr (Some early), w1) \<Rightarrow> Some (Inr early, w1)
             | (Inr None, w1) \<Rightarrow>
                (let sourceType = (case o_sourceType options of
                                     Some explicitType \<Rightarrow> explicitType
                                   | None \<Rightarrow> detectSourceType url)
                 in case extractContent env url sourceType of
                      Inl err \<Rightarrow> Some (Inl err, w1)
                    | Inr None \<Rightarrow>
                       Some (Inr (failed extraction_failed (Message ''Content extraction failed'') None), w1)
                    | Inr (Some extracted) \<Rightarrow>
                       finishIngestion env
                         \<lparr>p_url = Some normalizedUrl, p_title = Some (e_title extracted),
                          p_content = e_content extracted, p_sourceType = sourceType,
                          p_tags = o_tags options, p_existingSource = existingByUrl\<rparr> w1)))"

definition catchFinally ::
  "((js_error + IngestResult) \<times> world) option \<Rightarrow> ((js_error + IngestResult) \<times> world) option" where
  \<comment> \<open>\<open>catch (err) { return unknown }\<close> and \<open>finally { release() }\<close> around a \<open>try\<close> block\<close>
  "catchFinally tried =
     (case tried of
        None \<Rightarrow> None
      | Some (Inl err, w) \<Rightarrow> Some (Inr (failed unknown (Thrown err) None), release ''ingest'' w)
      | Some (Inr result, w) \<Rightarrow> Some (Inr result, release ''ingest'' w))"

definition ingestUrlInternal ::
  "'u env \<Rightarrow> string \<Rightarrow> IngestOptions \<Rightarrow> bool \<Rightarrow> world \<Rightarrow> ((js_error + IngestResult) \<times> world) option" where
  "ingestUrlInternal env url options forceUpdate w =
     (case acquire env ''ingest'' w of
        Inl err \<Rightarrow> Some (Inl err, w)
      | Inr w1 \<Rightarrow> catchFinally (ingestUrl_try env url options forceUpdate w1))"

definition ingestContent_try ::
  "'u env \<Rightarrow> string \<Rightarrow> IngestOptions \<Rightarrow> bool \<Rightarrow> world \<Rightarrow> ((js_error + IngestResult) \<times> world) option" where
  \<comment> \<open>the \<open>try\<close> block of \<open>ingestContentInternal\<close>; an empty \<open>url\<close> counts as none\<close>
  "ingestContent_try env content options forceUpdate w =
     (let sourceType = (case o_sourceType options of Some t \<Rightarrow> t | None \<Rightarrow> Text);
          url = (if o_url options = Some [] then None else o_url options)
      in case (case url of
                 None \<Rightarrow> (Inr (Inl None), w)
               | Some u \<Rightarrow>
                  (case getSourceByUrl (normalizeUrl (urlApi env) u) w of
                     Inl err \<Rightarrow> (Inl err, w)
                   | Inr None \<Rightarrow> (Inr (Inl None), w)
                   | Inr (Some existing) \<Rightarrow>
                      if forceUpdate
                      then (case deleteChunksBySourceId (s_id existing) w of
                              (Inl err, w1) \<Rightarrow> (Inl err, w1)
                            | (Inr done, w1) \<Rightarrow> (Inr (Inl (Some existing)), w1))
                      else (Inr (Inr (duplicateUrlResult existing)), w))) of
           (Inl err, w1) \<Rightarrow> Some (Inl err, w1)
         | (Inr (Inr early), w1) \<Rightarrow> Some (Inr early, w1)
         | (Inr (Inl existingSource), w1) \<Rightarrow>
            finishIngestion env
              \<lparr>p_url = map_option (normalizeUrl (urlApi env)) url, p_title = o_title options,
               p_content = content, p_sourceType = sourceType, p_tags = o_tags options,
               p_existingSource = existingSource\<rparr> w1)"

definition ingestContentInternal ::
  "'u env \<Rightarrow> string \<Rightarrow> IngestOptions \<Rightarrow> bool \<Rightarrow> world \<Rightarrow> ((js_error + IngestResult) \<times> world) option" where
  "ingestContentInternal env content options forceUpdate w =
     (case acquire env ''ingest'' w of
        Inl err \<Rightarrow> Some (Inl err, w)
      | Inr w1 \<Rightarrow> catchFinally (ingestContent_try env content options forceUpdate w1))"

definition ingestUrl :: "'u env \<Rightarrow> string \<Rightarrow> IngestOptions \<Rightarrow> world \<Rightarrow> ((js_error + IngestResult) \<times> world) option" where
  "ingestUrl env url options w = ingestUrlInternal env url options False w"

definition updateUrl :: "'u env \<Rightarrow> string \<Rightarrow> IngestOptions \<Rightarrow> world \<Rightarrow> ((js_error + IngestResult) \<times> world) option" where
  "updateUrl env url options w = ingestUrlInternal env url options True w"

definition ingestContent :: "'u env \<Rightarrow> string \<Rightarrow> IngestOptions \<Rightarrow> world \<Rightarrow> ((js_error + IngestResult) \<times> world) option" where
  "ingestContent env content options w = ingestContentInternal env content options False w"

definition updateContent :: "'u env \<Rightarrow> string \<Rightarrow> IngestOptions \<Rightarrow> world \<Rightarrow> ((js_error + IngestResult) \<times> world) option" where
  "updateContent env content options w = ingestContentInternal env content options True w"

section \<open>Example states\<close>

text \<open>An environment and two states on which the functions are evaluated.\<close>

definition exampleEnv :: "string env" where
  "exampleEnv =
     \<lparr>urlApi = serialisedUrlApi, pid = 7, now = 1000000,
      processAlive = (\<lambda>p. p = 4242), sha256 = (\<lambda>s. s), newSourceId = ''kb-1000000-abc123'',
      extractArticle = (\<lambda>url. Inr None), extractVideoTranscript = (\<lambda>url. Inr None),
      extractTweet = (\<lambda>url. Inr None), embed = (\<lambda>i t. None)\<rparr>"

definition heldLockWorld :: world where
  "heldLockWorld =
     \<lparr>lockFiles = [''ingest.lock'' \<mapsto> \<lparr>lf_content = ''4242'', lf_mtimeMs = 999000\<rparr>],
      db = None, ollamaAvailable = True\<rparr>"

definition storedSource :: KBSource where
  "storedSource =
     \<lparr>s_id = ''kb-999000-xyz789'', s_url = Some ''https://example.com/a'', s_title = Some ''A'',
      s_source_type = Article, s_summary = None, s_raw_content = ''stored text'',
      s_content_hash = ''stored text'', s_tags = None, s_created_at = 999000,
      s_updated_at = 999000\<rparr>"

definition storedWorld :: world where
  "storedWorld =
     \<lparr>lockFiles = Map.empty,
      db = Some \<lparr>kb_sources = [storedSource], kb_chunks = [], next_chunk_id = 1\<rparr>,
      ollamaAvailable = True\<rparr>"

definition sameUrlOptions :: IngestOptions where
  "sameUrlOptions =
     \<lparr>o_url = Some ''https://www.example.com/a/'', o_content = None, o_title = None,
      o_sourceType = None, o_tags = None\<rparr>"

section \<open>Search (search.ts)\<close>

text \<open>
  A similarity is a real number and an embedding a list of real numbers: the rounding of
  floating-point arithmetic is left out.
\<close>

record SearchOptions =
  so_limit :: "int option"
  so_minSimilarity :: "real option"
  so_dedupeBySource :: "bool option"

record SearchRow =
  row_id :: nat
  row_source_id :: string
  row_content :: string
  row_source_url :: "string option"
  row_source_title :: "string option"
  row_source_type :: SourceType

record SearchResult =
  sr_chunk_id :: nat
  sr_source_id :: string
  sr_source_url :: "string option"
  sr_source_title :: "string option"
  sr_source_type :: SourceType
  sr_content :: string
  sr_similarity :: real

text \<open>
  What a search takes from outside the repository: the embedding generated for the query
  text, and the rows the vector index returns for a query vector and a fetch limit, each
  with the distance the index reports (or the error the query throws, as when the index
  is absent).
\<close>

record search_env =
  generateEmbedding :: "string \<Rightarrow> real list option"
  vssSearch :: "real list \<Rightarrow> int \<Rightarrow> js_error + (SearchRow \<times> real) list"

definition sortBySimilarity :: "SearchResult list \<Rightarrow> SearchResult list" where
  \<comment> \<open>\<open>results.sort((a, b) => b.similarity - a.similarity)\<close>: a stable sort, highest first\<close>
  "sortBySimilarity results = sort_key (\<lambda>r. - sr_similarity r) results"

fun mapSet :: "string \<Rightarrow> SearchResult \<Rightarrow> (string \<times> SearchResult) list \<Rightarrow> (string \<times> SearchResult) list" where
  \<comment> \<open>\<open>Map.set\<close>: a new key goes last, a known key keeps its place\<close>
  "mapSet k v [] = [(k, v)]"
| "mapSet k v ((k', v') # m) = (if k = k' then (k, v) # m else (k', v') # mapSet k v m)"

fun bestBySourceLoop :: "SearchResult list \<Rightarrow> (string \<times> SearchResult) list \<Rightarrow> (string \<times> SearchResult) list" where
  "bestBySourceLoop [] bestBySource = bestBySource"
| "bestBySourceLoop (r # results) bestBySource =
     bestBySourceLoop results
       (case map_of bestBySource (sr_source_id r) of
          None \<Rightarrow> mapSet (sr_source_id r) r bestBySource
        | Some existing \<Rightarrow>
           if sr_similarity r > sr_similarity existing
           then mapSet (sr_source_id r) r bestBySource else bestBySource)"

definition sliceTo :: "'a list \<Rightarrow> int \<Rightarrow> 'a list" where
  \<comment> \<open>\<open>xs.slice(0, limit)\<close>: a negative \<open>limit\<close> counts from the end\<close>
  "sliceTo xs limit =
     (if limit < 0 then take (nat (int (length xs) + limit)) xs else take (nat limit) xs)"

definition processAndRankResults :: "SearchResult list \<Rightarrow> int \<Rightarrow> bool \<Rightarrow> SearchResult list" where
  "processAndRankResults results limit dedupeBySource =
     (let results = sortBySimilarity results;
          finalResults = (if dedupeBySource
                          then sortBySimilarity (map snd (bestBySourceLoop results []))
                          else results)
      in sliceTo finalResults limit)"

fun cosineLoop :: "real list \<Rightarrow> real list \<Rightarrow> real \<times> real \<times> real \<Rightarrow> real \<times> real \<times> real" where
  \<comment> \<open>the loop of \<open>cosineSimilarity\<close> over two arrays of one length\<close>
  "cosineLoop (x # a) (y # b) (dotProduct, normA, normB) =
     cosineLoop a b (dotProduct + x * y, normA + x * x, normB + y * y)"
| "cosineLoop a b acc = acc"

definition cosineSimilarity :: "real list \<Rightarrow> real list \<Rightarrow> real" where
  "cosineSimilarity a b =
     (if length a \<noteq> length b then 0
      else (case cosineLoop a b (0, 0, 0) of
              (dotProduct, normA, normB) \<Rightarrow>
                (let magnitude = sqrt normA * sqrt normB
                 in if magnitude = 0 then 0 else dotProduct / magnitude)))"

definition vssSimilarity :: "real \<Rightarrow> real" where
  \<comment> \<open>\<open>Math.max(0, 1 - (row.distance * row.distance) / 2)\<close>\<close>
  "vssSimilarity distance = max 0 (1 - (distance * distance) / 2)"

definition toResult :: "SearchRow \<Rightarrow> real \<Rightarrow> SearchResult" where
  "toResult row similarity =
     \<lparr>sr_chunk_id = row_id row, sr_source_id = row_source_id row,
      sr_source_url = row_source_url row, sr_source_title = row_source_title row,
      sr_source_type = row_source_type row, sr_content = row_content row,
      sr_similarity = similarity\<rparr>"

fun embeddedRows :: "KBSource list \<Rightarrow> KBChunk list \<Rightarrow> (SearchRow \<times> real list) list" where
  \<comment> \<open>\<open>kb_chunks c JOIN kb_sources s ON c.source_id = s.id WHERE c.embedding IS NOT NULL\<close>\<close>
  "embeddedRows sources [] = []"
| "embeddedRows sources (c # chunks) =
     (case c_embedding c of
        None \<Rightarrow> embeddedRows sources chunks
      | Some embedding \<Rightarrow>
         (case find (\<lambda>s. s_id s = c_source_id c) sources of
            None \<Rightarrow> embeddedRows sources chunks
          | Some s \<Rightarrow>
             (\<lparr>row_id = c_id c, row_source_id = c_source_id c, row_content = c_content c,
               row_source_url = s_url s, row_source_title = s_title s,
               row_source_type = s_source_type s\<rparr>, embedding)
             # embeddedRows sources chunks))"

definition limitOf :: "SearchOptions \<Rightarrow> int" where
  "limitOf options = (case so_limit options of Some v \<Rightarrow> v | None \<Rightarrow> 10)"

definition minSimilarityOf :: "SearchOptions \<Rightarrow> real" where
  "minSimilarityOf options = (case so_minSimilarity options of Some v \<Rightarrow> v | None \<Rightarrow> 7 / 10)"

definition dedupeBySourceOf :: "SearchOptions \<Rightarrow> bool" where
  "dedupeBySourceOf options = (case so_dedupeBySource options of Some v \<Rightarrow> v | None \<Rightarrow> True)"

definition fallbackSearch :: "real list \<Rightarrow> SearchOptions \<Rightarrow> world \<Rightarrow> js_error + SearchResult list" where
  "fallbackSearch queryEmbedding options w =
     (case db w of
        None \<Rightarrow> Inl notInitialized
      | Some d \<Rightarrow>
         (let rows = embeddedRows (kb_sources d) (kb_chunks d);
              results = filter (\<lambda>r. sr_similarity r \<ge> minSimilarityOf options)
                          (map (\<lambda>(row, chunkEmbedding).
                                  toResult row (cosineSimilarity queryEmbedding chunkEmbedding)) rows)
          in Inr (processAndRankResults results (limitOf options) (dedupeBySourceOf options))))"

definition search :: "search_env \<Rightarrow> string \<Rightarrow> SearchOptions \<Rightarrow> world \<Rightarrow> js_error + SearchResult list" where
  "search senv query options w =
     (if \<not> ollamaAvailable w then Inr []
      else case generateEmbedding senv query of
             None \<Rightarrow> Inr []
           | Some queryEmbedding \<Rightarrow>
              (case db w of
                 None \<Rightarrow> Inl notInitialized
               | Some d \<Rightarrow>
                  (let count = length (filter (\<lambda>c. c_embedding c \<noteq> None) (kb_chunks d))
                   in if count = 0 then Inr []
                      else
                       (let fetchLimit = min (limitOf options * 3) (int count)
                        in case vssSearch senv queryEmbedding fetchLimit of
                             Inr rows \<Rightarrow>
                              Inr (processAndRankResults
                                     (filter (\<lambda>r. sr_similarity r \<ge> minSimilarityOf options)
                                        (map (\<lambda>(row, distance). toResult row (vssSimilarity distance)) rows))
                                     (limitOf options) (dedupeBySourceOf options))
                           | Inl err \<Rightarrow> fallbackSearch queryEmbedding options w))))"

text \<open>The specification's words for the two vectors of a comparison.\<close>

definition isUnitVector :: "real list \<Rightarrow> bool" where
  "isUnitVector a \<longleftrightarrow> sum_list (map (\<lambda>x. x * x) a) = 1"

definition squaredDistance :: "real list \<Rightarrow> real list \<Rightarrow> real" where
  "squaredDistance a b = sum_list (map (\<lambda>(x, y). (x - y) * (x - y)) (zip a b))"

definition sortedBySimilarity :: "SearchResult list \<Rightarrow> bool" where
  "sortedBySimilarity results \<longleftrightarrow> sorted_wrt (\<lambda>r s. sr_similarity r \<ge> sr_similarity s) results"

text \<open>
  A search environment without the vector index and one with it, a database of one
  chunk, and options.
\<close>

definition unitQueryEnv :: search_env where
  "unitQueryEnv =
     \<lparr>generateEmbedding = (\<lambda>query. Some [1, 0]),
      vssSearch = (\<lambda>queryEmbedding fetchLimit. Inl (SqliteError ''no such table: kb_chunks_vss''))\<rparr>"

definition indexedEnv :: "real \<Rightarrow> search_env" where
  "indexedEnv distance =
     \<lparr>generateEmbedding = (\<lambda>query. Some [1, 0]),
      vssSearch = (\<lambda>queryEmbedding fetchLimit.
        Inr [(\<lparr>row_id = 1, row_source_id = ''kb-999000-xyz789'', row_content = ''stored text'',
               row_source_url = Some ''https://example.com/a'', row_source_title = Some ''A'',
               row_source_type = Article\<rparr>, distance)])\<rparr>"

definition oneChunkDb :: "real list \<Rightarrow> database" where
  "oneChunkDb embedding =
     \<lparr>kb_sources = [storedSource],
      kb_chunks = [\<lparr>c_id = 1, c_source_id = ''kb-999000-xyz789'', c_chunk_index = 0,
                    c_content = ''stored text'', c_embedding = Some embedding,
                    c_embedding_dim = Some 2, c_embedding_provider = Some ''ollama'',
                    c_embedding_model = Some ''nomic-embed-text'', c_created_at = 999000\<rparr>],
      next_chunk_id = 2\<rparr>"

definition oneChunkWorld :: "real list \<Rightarrow> world" where
  "oneChunkWorld embedding =
     \<lparr>lockFiles = Map.empty, db = Some (oneChunkDb embedding), ollamaAvailable = True\<rparr>"

definition searchOptions :: "real \<Rightarrow> SearchOptions" where
  "searchOptions minSimilarity =
     \<lparr>so_limit = Some 10, so_minSimilarity = Some minSimilarity, so_dedupeBySource = Some False\<rparr>"

section \<open>Lemmas on strings\<close>

lemma includesStr_sublist: "includesStr s p \<longleftrightarrow> sublist p s"
  by (induction s) (auto simp: sublist_Cons_right)

lemma sublist_toLowerCase:
  "sublist p (toLowerCase content) \<longleftrightarrow> (\<exists>pre w post. content = pre @ w @ post \<and> toLowerCase w = p)"
proof
  assume "sublist p (toLowerCase content)"
  then obtain w where w: "sublist w content" "p = map lowerChar w"
    unfolding toLowerCase_def using sublist_map_rightE by blast
  then obtain pre post where "content = pre @ w @ post"
    by (auto simp: sublist_def)
  with w show "\<exists>pre w post. content = pre @ w @ post \<and> toLowerCase w = p"
    unfolding toLowerCase_def by blast
next
  assume "\<exists>pre w post. content = pre @ w @ post \<and> toLowerCase w = p"
  then obtain pre w post where "content = pre @ w @ post" "toLowerCase w = p"
    by blast
  then have "toLowerCase content = toLowerCase pre @ p @ toLowerCase post"
    by (auto simp: toLowerCase_def)
  then show "sublist p (toLowerCase content)"
    unfolding sublist_def by blast
qed

lemma distinct_ERROR_PATTERNS: "distinct ERROR_PATTERNS"
  by (simp add: ERROR_PATTERNS_def)

lemma lower_ERROR_PATTERNS: "p \<in> set ERROR_PATTERNS \<Longrightarrow> toLowerCase p = p"
  by (auto simp: ERROR_PATTERNS_def toLowerCase_def lowerChar_def)

lemma errorSignals_card:
  "length (filter (\<lambda>p. includesStr (toLowerCase content) p) ERROR_PATTERNS)
     = card {p \<in> set ERROR_PATTERNS. occursIgnoringCase p content}"
proof -
  have "includesStr (toLowerCase content) p \<longleftrightarrow> occursIgnoringCase p content"
    if "p \<in> set ERROR_PATTERNS" for p
    using lower_ERROR_PATTERNS [OF that]
    by (simp add: includesStr_sublist sublist_toLowerCase occursIgnoringCase_def)
  then have "set (filter (\<lambda>p. includesStr (toLowerCase content) p) ERROR_PATTERNS)
          = {p \<in> set ERROR_PATTERNS. occursIgnoringCase p content}"
    by auto
  moreover have "distinct (filter (\<lambda>p. includesStr (toLowerCase content) p) ERROR_PATTERNS)"
    using distinct_ERROR_PATTERNS by (rule distinct_filter)
  ultimately show ?thesis
    by (metis distinct_card)
qed

lemma MIN_LENGTHS_pos: "MIN_LENGTHS type \<noteq> 0"
  by (cases type) simp_all

section \<open>Lemmas on the chunker\<close>

lemma sentenceBoundaryFrom_bounds:
  "sentenceBoundaryFrom i w = Some (k, n) \<Longrightarrow> i < k \<and> 0 < n \<and> k + n \<le> i + length w"
proof (induction i w rule: sentenceBoundaryFrom.induct)
  case (1 i p c rest)
  show ?case
  proof (cases "isSentenceEnd p \<and> isWhiteSpace c")
    case True
    have "length (takeWhile isWhiteSpace rest) \<le> length rest"
      by (rule length_takeWhile_le)
    with True 1(2) show ?thesis by auto
  next
    case False
    with 1 show ?thesis by auto
  qed
qed simp_all

lemma wordBoundaryFrom_bounds:
  "wordBoundaryFrom i w = Some k \<Longrightarrow> i \<le> k \<and> k < i + length w"
  by (induction i w rule: wordBoundaryFrom.induct) (auto split: if_splits)

lemma cutEnd_progress:
  assumes "position < length text" and "0 < chunkSize"
  shows "position < cutEnd text chunkSize overlap position
         \<and> cutEnd text chunkSize overlap position \<le> length text"
proof -
  define e where "e = min (position + chunkSize) (length text)"
  define windowEnd where "windowEnd = min (e + overlap) (length text)"
  define windowStart where "windowStart = max position (e - overlap)"
  define window where "window = slice text windowStart windowEnd"
  have e: "position < e" "e \<le> length text"
    using assms by (auto simp: e_def)
  have ws: "position \<le> windowStart" "windowStart \<le> e"
    using e by (auto simp: windowStart_def)
  have len: "windowStart + length window \<le> length text"
    using ws e by (auto simp: window_def slice_def windowEnd_def)
  have unfold: "cutEnd text chunkSize overlap position =
      (if e < length text then
         (case SENTENCE_BOUNDARY_exec window of
            Some (index, len) \<Rightarrow> windowStart + index + len
          | None \<Rightarrow> (case wordBoundary_exec window of
                       Some index \<Rightarrow> windowStart + index + 1 | None \<Rightarrow> e))
       else e)"
    by (simp only: cutEnd_def Let_def e_def windowEnd_def windowStart_def window_def)
  show ?thesis
  proof (cases "e < length text")
    case False
    with e unfold show ?thesis by simp
  next
    case True
    show ?thesis
    proof (cases "SENTENCE_BOUNDARY_exec window")
      case (Some kn)
      obtain k n where kn: "kn = (k, n)" by (cases kn)
      from Some kn sentenceBoundaryFrom_bounds [of 0 window k n]
      have "0 < k" "0 < n" "k + n \<le> length window"
        by (auto simp: SENTENCE_BOUNDARY_exec_def)
      with Some kn True unfold ws len show ?thesis by simp
    next
      case None
      show ?thesis
      proof (cases "wordBoundary_exec window")
        case (Some k)
        with wordBoundaryFrom_bounds [of 0 window k]
        have "k < length window" by (simp add: wordBoundary_exec_def)
        with Some None True unfold ws len show ?thesis by simp
      next
        case N2: None
        with None True unfold e show ?thesis by simp
      qed
    qed
  qed
qed

lemma isLoopSegments_unique:
  "isLoopSegments text chunkSize overlap position segs
   \<Longrightarrow> isLoopSegments text chunkSize overlap position segs' \<Longrightarrow> segs = segs'"
proof (induction segs arbitrary: position segs')
  case Nil
  then show ?case by (cases segs') simp_all
next
  case (Cons seg segs)
  then show ?case by (cases segs') auto
qed

lemma chunkLoop_position:
  assumes "chunkLoop text chunkSize overlap minChunk chunks position = Some r"
  shows "length text \<le> snd r"
proof (rule chunkLoop.raw_induct
      [where P = "\<lambda>t cs ov mc ch pos r. length t \<le> snd r", OF _ assms])
  fix f t cs ov mc ch pos r
  assume IH: "\<And>t cs ov mc ch pos r. f t cs ov mc ch pos = Some r \<Longrightarrow> length t \<le> snd r"
    and body: "(if pos < length t
                then let end = cutEnd t cs ov pos; chunk = trim (slice t pos end)
                     in f t cs ov mc (if mc \<le> length chunk then ch @ [chunk] else ch) end
                else Some (ch, pos)) = Some r"
  show "length t \<le> snd r"
  proof (cases "pos < length t")
    case True
    with body IH show ?thesis by (simp add: Let_def)
  next
    case False
    with body show ?thesis by auto
  qed
qed

lemma chunkLoop_cuts:
  assumes "0 < chunkSize"
  shows "position \<le> length text \<Longrightarrow>
     \<exists>segs. chunkLoop text chunkSize overlap minChunk chunks position
               = Some (chunks @ keptChunks minChunk segs, length text)
           \<and> isLoopSegments text chunkSize overlap position segs
           \<and> concat segs = drop position text \<and> [] \<notin> set segs"
proof (induction "length text - position" arbitrary: position chunks rule: less_induct)
  case less
  show ?case
  proof (cases "position < length text")
    case False
    with less.prems have "position = length text" by simp
    then have "chunkLoop text chunkSize overlap minChunk chunks position
                 = Some (chunks @ keptChunks minChunk [], length text)
               \<and> isLoopSegments text chunkSize overlap position []
               \<and> concat [] = drop position text \<and> [] \<notin> set ([] :: string list)"
      by (simp add: chunkLoop.simps keptChunks_def)
    then show ?thesis by blast
  next
    case True
    define e where "e = cutEnd text chunkSize overlap position"
    define seg where "seg = slice text position e"
    define chunks' where
      "chunks' = (if minChunk \<le> length (trim seg) then chunks @ [trim seg] else chunks)"
    have e: "position < e" "e \<le> length text"
      using cutEnd_progress [OF True assms, of overlap] by (simp_all add: e_def)
    then have "length text - e < length text - position"
      using True by simp
    from less.hyps [OF this e(2), of chunks'] obtain segs where
      segs: "chunkLoop text chunkSize overlap minChunk chunks' e
               = Some (chunks' @ keptChunks minChunk segs, length text)"
        "isLoopSegments text chunkSize overlap e segs"
        "concat segs = drop e text" "[] \<notin> set segs"
      by blast
    have step: "chunkLoop text chunkSize overlap minChunk chunks position
                  = chunkLoop text chunkSize overlap minChunk chunks' e"
      using True
      by (subst chunkLoop.simps) (simp add: Let_def e_def seg_def chunks'_def)
    have res: "chunks' @ keptChunks minChunk segs = chunks @ keptChunks minChunk (seg # segs)"
      by (simp add: chunks'_def keptChunks_def)
    have cuts: "isLoopSegments text chunkSize overlap position (seg # segs)"
      using True segs(2) by (simp add: seg_def e_def)
    have "drop e text = drop (e - position) (drop position text)"
      using e by simp
    with segs(3) have "concat (seg # segs)
        = take (e - position) (drop position text) @ drop (e - position) (drop position text)"
      by (simp only: concat.simps seg_def slice_def)
    then have cat: "concat (seg # segs) = drop position text"
      by (simp only: append_take_drop_id)
    have "seg \<noteq> []"
      using e True by (simp add: seg_def slice_def)
    with segs(4) have "[] \<notin> set (seg # segs)" by auto
    with step segs(1) res cuts cat show ?thesis by metis
  qed
qed

lemma chunkLoop_stuck:
  assumes "position < length text" and "cutEnd text chunkSize overlap position = position"
  shows "chunkLoop text chunkSize overlap minChunk chunks position = None"
proof (rule ccontr)
  assume "chunkLoop text chunkSize overlap minChunk chunks position \<noteq> None"
  then obtain y where y: "chunkLoop text chunkSize overlap minChunk chunks position = Some y"
    by auto
  have "\<not> (position < length text \<and> cutEnd text chunkSize overlap position = position)"
  proof (rule chunkLoop.raw_induct
      [where P = "\<lambda>t cs ov mc ch pos r. \<not> (pos < length t \<and> cutEnd t cs ov pos = pos)", OF _ y])
    fix f t cs ov mc ch pos r
    assume IH: "\<And>t cs ov mc ch pos r. f t cs ov mc ch pos = Some r
                  \<Longrightarrow> \<not> (pos < length t \<and> cutEnd t cs ov pos = pos)"
      and body: "(if pos < length t
                  then let end = cutEnd t cs ov pos; chunk = trim (slice t pos end)
                       in f t cs ov mc (if mc \<le> length chunk then ch @ [chunk] else ch) end
                  else Some (ch, pos)) = Some r"
    show "\<not> (pos < length t \<and> cutEnd t cs ov pos = pos)"
    proof
      assume stuck: "pos < length t \<and> cutEnd t cs ov pos = pos"
      with body have "f t cs ov mc (if mc \<le> length (trim (slice t pos pos)) then ch @ [trim (slice t pos pos)] else ch) pos = Some r"
        by (simp add: Let_def)
      from IH [OF this] stuck show False by simp
    qed
  qed
  with assms show False by simp
qed

text \<open>
  The branch after the loop, which appends a remainder shorter than \<open>minChunk\<close> to the last
  chunk, needs \<open>position < text.length\<close>; the loop ends only when that is false, so the
  branch never runs and the result is the list the loop built.
\<close>

lemma chunkText_is_loop:
  "chunkText text options
     = map_option fst (chunkLoop text (chunkSizeOf options) (overlapOf options) (minChunkOf options) [] 0)"
proof (cases "chunkLoop text (chunkSizeOf options) (overlapOf options) (minChunkOf options) [] 0")
  case None
  then show ?thesis by (simp add: chunkText_def)
next
  case (Some r)
  from chunkLoop_position [OF Some] have "\<not> snd r < length text" by simp
  with Some show ?thesis
    by (cases r) (simp add: chunkText_def Let_def)
qed

lemma chunkText_returns:
  assumes "0 < chunkSizeOf options"
  shows "\<exists>segs. chunkText text options = Some (keptChunks (minChunkOf options) segs)
              \<and> isLoopSegments text (chunkSizeOf options) (overlapOf options) 0 segs
              \<and> concat segs = text \<and> [] \<notin> set segs"
proof -
  from chunkLoop_cuts [OF assms, of 0 "text" "overlapOf options" "minChunkOf options" "[]"]
  obtain segs where
    segs: "chunkLoop text (chunkSizeOf options) (overlapOf options) (minChunkOf options) [] 0
             = Some (keptChunks (minChunkOf options) segs, length text)"
      "isLoopSegments text (chunkSizeOf options) (overlapOf options) 0 segs"
      "concat segs = text" "[] \<notin> set segs"
    by auto
  from segs(1) have "chunkText text options = Some (keptChunks (minChunkOf options) segs)"
    by (simp add: chunkText_is_loop)
  with segs(2,3,4) show ?thesis by blast
qed

lemma keptChunks_min: "c \<in> set (keptChunks minChunk segs) \<Longrightarrow> minChunk \<le> length c"
  by (simp add: keptChunks_def)

lemma length_trim_le: "length (trim s) \<le> length s"
proof -
  have "length (dropWhile isWhiteSpace (rev (dropWhile isWhiteSpace s)))
          \<le> length (rev (dropWhile isWhiteSpace s))"
    by (rule length_dropWhile_le)
  also have "\<dots> \<le> length s"
    by (simp add: length_dropWhile_le)
  finally show ?thesis by (simp add: trim_def)
qed

lemma keptChunks_short_last:
  assumes "endsInShortRemainder minChunk segs"
  shows "keptChunks minChunk segs = keptChunks minChunk (butlast segs)"
proof -
  from assms have ne: "segs \<noteq> []" and short: "length (last segs) < minChunk"
    by (simp_all add: endsInShortRemainder_def)
  have "length (trim (last segs)) \<le> length (last segs)"
    by (rule length_trim_le)
  with short have "\<not> minChunk \<le> length (trim (last segs))" by simp
  then have "keptChunks minChunk (butlast segs @ [last segs]) = keptChunks minChunk (butlast segs)"
    by (simp add: keptChunks_def)
  with ne show ?thesis by simp
qed

text \<open>
  A last segment shorter than \<open>minChunk\<close> is dropped, not appended to the chunk before it.
\<close>

lemma chunkText_drops_short_remainder:
  "chunkText ''Alpha beta. Gamma delta epsilon. Zeta''
      \<lparr>opt_chunkSize = Some 12, opt_overlap = Some 4, opt_minChunk = Some 5\<rparr>
     = Some [''Alpha beta.'', ''Gamma delta'', ''epsilon.'']
   \<and> chunkText ''aaaaabb'' \<lparr>opt_chunkSize = Some 5, opt_overlap = Some 0, opt_minChunk = Some 3\<rparr>
       = Some [''aaaaa'']"
  by code_simp

lemma coversText_length:
  assumes "coversText chunks t"
  shows "length t \<le> sum_list (map length chunks)"
proof -
  have "length (concat (map2 drop ks cs)) \<le> sum_list (map length cs)" for ks and cs :: "string list"
  proof (induction cs arbitrary: ks)
    case Nil
    show ?case by simp
  next
    case (Cons c cs)
    show ?case
    proof (cases ks)
      case Nil
      then show ?thesis by simp
    next
      case (Cons k ks')
      with Cons.IH [of ks'] show ?thesis by simp
    qed
  qed
  with assms show ?thesis
    by (auto simp: coversText_def)
qed

lemma isSentenceBoundaryAt_Cons:
  "isSentenceBoundaryAt (p # u) (Suc j) \<longleftrightarrow>
     (if j = 0 then u \<noteq> [] \<and> isSentenceEnd p \<and> isWhiteSpace (hd u)
      else isSentenceBoundaryAt u j)"
  by (cases u; cases j) (auto simp: isSentenceBoundaryAt_def)

lemma isSentenceBoundaryAt_0: "\<not> isSentenceBoundaryAt w 0"
  by (simp add: isSentenceBoundaryAt_def)

lemma sentenceBoundaryFrom_Some:
  "sentenceBoundaryFrom i w = Some (k, n) \<Longrightarrow>
     \<exists>j. k = i + j \<and> isSentenceBoundaryAt w j \<and> (\<forall>j'<j. \<not> isSentenceBoundaryAt w j')
        \<and> n = whiteSpaceRun w j"
proof (induction i w arbitrary: k n rule: sentenceBoundaryFrom.induct)
  case (1 i p c rest)
  show ?case
  proof (cases "isSentenceEnd p \<and> isWhiteSpace c")
    case True
    with 1(2) have kn: "k = i + 1" "n = whiteSpaceRun (p # c # rest) 1"
      by (auto simp: whiteSpaceRun_def)
    moreover have "isSentenceBoundaryAt (p # c # rest) 1"
      using True by (simp add: isSentenceBoundaryAt_def)
    moreover have "\<forall>j'<1. \<not> isSentenceBoundaryAt (p # c # rest) j'"
      by (simp add: isSentenceBoundaryAt_0)
    ultimately show ?thesis by blast
  next
    case False
    with 1(2) have "sentenceBoundaryFrom (Suc i) (c # rest) = Some (k, n)" by simp
    from 1(1) [OF False this] obtain j where
      j: "k = Suc i + j" "isSentenceBoundaryAt (c # rest) j"
         "\<forall>j'<j. \<not> isSentenceBoundaryAt (c # rest) j'" "n = whiteSpaceRun (c # rest) j"
      by blast
    from j(2) have j0: "j \<noteq> 0" by (auto simp: isSentenceBoundaryAt_def)
    have "isSentenceBoundaryAt (p # c # rest) (Suc j)"
      using j(2) j0 by (simp add: isSentenceBoundaryAt_Cons)
    moreover have "\<not> isSentenceBoundaryAt (p # c # rest) j'" if "j' < Suc j" for j'
    proof (cases j')
      case 0
      then show ?thesis by (simp add: isSentenceBoundaryAt_0)
    next
      case (Suc m)
      with that j(3) False show ?thesis
        by (auto simp: isSentenceBoundaryAt_Cons)
    qed
    moreover have "n = whiteSpaceRun (p # c # rest) (Suc j)"
      using j(4) by (simp add: whiteSpaceRun_def)
    moreover have "k = i + Suc j" using j(1) by simp
    ultimately show ?thesis by blast
  qed
qed simp_all

lemma sentenceBoundaryFrom_None:
  "sentenceBoundaryFrom i w = None \<Longrightarrow> \<not> isSentenceBoundaryAt w j"
proof (induction i w arbitrary: j rule: sentenceBoundaryFrom.induct)
  case (1 i p c rest)
  then have no: "\<not> (isSentenceEnd p \<and> isWhiteSpace c)"
    and rec: "sentenceBoundaryFrom (Suc i) (c # rest) = None"
    by (auto split: if_splits)
  show ?case
  proof (cases j)
    case 0
    then show ?thesis by (simp add: isSentenceBoundaryAt_0)
  next
    case (Suc m)
    with 1(1) [OF no rec, of m] no show ?thesis
      by (auto simp: isSentenceBoundaryAt_Cons)
  qed
qed (auto simp: isSentenceBoundaryAt_def)

lemma isLastWhiteSpaceAt_Cons:
  "isLastWhiteSpaceAt (c # u) k \<longleftrightarrow>
     (if k = 0 then isWhiteSpace c \<and> list_all (\<lambda>d. \<not> isWhiteSpace d) u
      else isLastWhiteSpaceAt u (k - 1))"
  by (cases k) (auto simp: isLastWhiteSpaceAt_def)

lemma wordBoundaryFrom_Some:
  "wordBoundaryFrom i w = Some k \<Longrightarrow> \<exists>j. k = i + j \<and> isLastWhiteSpaceAt w j"
proof (induction i w arbitrary: k rule: wordBoundaryFrom.induct)
  case (2 i c rest)
  show ?case
  proof (cases "isWhiteSpace c \<and> list_all (\<lambda>d. \<not> isWhiteSpace d) rest")
    case True
    with 2(2) have "k = i + 0" by simp
    moreover from True have "isLastWhiteSpaceAt (c # rest) 0"
      by (simp add: isLastWhiteSpaceAt_Cons)
    ultimately show ?thesis by blast
  next
    case False
    with 2(2) have "wordBoundaryFrom (Suc i) rest = Some k" by auto
    from 2(1) [OF False this] obtain j where "k = Suc i + j" "isLastWhiteSpaceAt rest j"
      by blast
    then have "k = i + Suc j" "isLastWhiteSpaceAt (c # rest) (Suc j)"
      by (simp_all add: isLastWhiteSpaceAt_Cons)
    then show ?thesis by blast
  qed
qed simp

lemma wordBoundaryFrom_None:
  "wordBoundaryFrom i w = None \<Longrightarrow> list_all (\<lambda>d. \<not> isWhiteSpace d) w"
  by (induction i w rule: wordBoundaryFrom.induct) (auto split: if_splits)

lemma isLastWhiteSpaceAt_less:
  assumes "isLastWhiteSpaceAt w j" and "isLastWhiteSpaceAt w k"
  shows "\<not> j < k"
proof
  assume "j < k"
  from assms(2) have k: "k < length w" "isWhiteSpace (w ! k)"
    by (simp_all add: isLastWhiteSpaceAt_def)
  from assms(1) have "\<forall>n<length (drop (Suc j) w). \<not> isWhiteSpace (drop (Suc j) w ! n)"
    by (simp add: isLastWhiteSpaceAt_def list_all_length)
  moreover have "k - Suc j < length (drop (Suc j) w)" "drop (Suc j) w ! (k - Suc j) = w ! k"
    using \<open>j < k\<close> k(1) by simp_all
  ultimately show False using k(2) by metis
qed

lemma isLastWhiteSpaceAt_unique:
  "isLastWhiteSpaceAt w j \<Longrightarrow> isLastWhiteSpaceAt w k \<Longrightarrow> j = k"
  using isLastWhiteSpaceAt_less [of w j k] isLastWhiteSpaceAt_less [of w k j] by arith

lemma firstSentenceBoundary_unique:
  assumes "isSentenceBoundaryAt w j" "\<forall>j'<j. \<not> isSentenceBoundaryAt w j'"
    and "isSentenceBoundaryAt w k" "\<forall>k'<k. \<not> isSentenceBoundaryAt w k'"
  shows "j = k"
proof (rule ccontr)
  assume "j \<noteq> k"
  then consider "j < k" | "k < j" by arith
  then show False using assms by cases auto
qed

section \<open>Lemmas on the lock and on ingestion\<close>

lemma normalizeUrl_via_href:
  assumes "hrefWithoutTracking api
             (if \<not> hasHttpScheme (trim url) then ''https://'' @ trim url else trim url) = Some h"
  shows "normalizeUrl api url =
           (let n = stripTrailingSlash
                      (replaceFirstIgnoreCase ''://x.com/'' ''://twitter.com/'' (stripWww h))
            in case indexOf n CHR ''#'' of Some hashIdx \<Rightarrow> slice n 0 hashIdx | None \<Rightarrow> n)"
  using assms
  by (auto simp: normalizeUrl_def normalizeUrl_try_def hrefWithoutTracking_def Let_def
      split: option.splits)

lemma unlinkSync_db: "db (unlinkSync f w) = db w"
  by (simp add: unlinkSync_def)

lemma writeFileSync_lock:
  "lockFiles (writeFileSync env f data w) f = Some \<lparr>lf_content = data, lf_mtimeMs = now env\<rparr>"
  by (simp add: writeFileSync_def)

lemma writeFileSync_db: "db (writeFileSync env f data w) = db w"
  by (simp add: writeFileSync_def)

lemma acquire_succeeds:
  "\<exists>w'. acquire env operation w = Inr w'
        \<and> lockFiles w' (operation @ ''.lock'')
            = Some \<lparr>lf_content = toStringNat (pid env), lf_mtimeMs = now env\<rparr>
        \<and> db w' = db w"
proof -
  define w1 where "w1 = (case lockFiles w (operation @ ''.lock'') of
                  None \<Rightarrow> w
                | Some stat \<Rightarrow>
                   (let age = now env - lf_mtimeMs stat
                    in if age > STALE_AGE_MS then unlinkSync (operation @ ''.lock'') w
                       else (case lockProbe env stat of
                               Inl err \<Rightarrow> unlinkSync (operation @ ''.lock'') w
                             | Inr _ \<Rightarrow> w)))"
  have "db w1 = db w"
    unfolding w1_def Let_def
    by (cases "lockFiles w (operation @ ''.lock'')")
       (simp_all add: unlinkSync_db split: sum.split)
  moreover have "acquire env operation w
      = Inr (writeFileSync env (operation @ ''.lock'') (toStringNat (pid env)) w1)"
    by (simp only: acquire_def Let_def w1_def)
  ultimately show ?thesis
    by (simp add: writeFileSync_lock writeFileSync_db)
qed

lemma release_unlocks: "lockFiles (release operation w) (operation @ ''.lock'') = None"
  by (simp add: release_def unlinkSync_def Let_def)

lemma release_db: "db (release operation w) = db w"
  by (simp add: release_def unlinkSync_def Let_def)

lemma KB_CONFIG_chunkSize: "0 < chunkSizeOf KB_CONFIG"
  by (simp add: KB_CONFIG_def chunkSizeOf_def)

lemma chunkText_KB_CONFIG: "chunkText t KB_CONFIG \<noteq> None"
  using chunkText_returns [OF KB_CONFIG_chunkSize, of t] by auto

lemma finishIngestion_returns: "finishIngestion env params w \<noteq> None"
  unfolding finishIngestion_def Let_def
  by (simp add: option.case_eq_if sum.case_eq_if case_prod_beta chunkText_KB_CONFIG)

lemma finishIngestion_returns_ex: "\<exists>outcome w'. finishIngestion env params w = Some (outcome, w')"
  using finishIngestion_returns [of env params w] by (cases "finishIngestion env params w") auto

lemma ingestUrl_try_returns: "ingestUrl_try env url options forceUpdate w \<noteq> None"
  unfolding ingestUrl_try_def Let_def
  by (simp add: option.case_eq_if sum.case_eq_if case_prod_beta finishIngestion_returns_ex)

lemma ingestContent_try_returns: "ingestContent_try env content options forceUpdate w \<noteq> None"
  unfolding ingestContent_try_def Let_def
  by (simp add: option.case_eq_if sum.case_eq_if case_prod_beta finishIngestion_returns_ex)

lemma catchFinally_unlocks:
  assumes "tried \<noteq> None"
  shows "\<exists>result w'. catchFinally tried = Some (Inr result, w') \<and> lockFiles w' ''ingest.lock'' = None"
proof -
  from assms obtain outcome w where tried: "tried = Some (outcome, w)"
    by (cases tried) auto
  have "lockFiles (release ''ingest'' w) ''ingest.lock'' = None"
    using release_unlocks [of "''ingest''" w] by simp
  with tried show ?thesis
    by (cases outcome) (simp_all add: catchFinally_def)
qed

lemma ingestUrlInternal_unlocks:
  "\<exists>result w'. ingestUrlInternal env url options forceUpdate w = Some (Inr result, w')
       \<and> lockFiles w' ''ingest.lock'' = None"
proof -
  obtain w1 where "acquire env ''ingest'' w = Inr w1"
    using acquire_succeeds by blast
  with catchFinally_unlocks [OF ingestUrl_try_returns, of env url options forceUpdate w1]
  show ?thesis by (simp add: ingestUrlInternal_def)
qed

lemma ingestContentInternal_unlocks:
  "\<exists>result w'. ingestContentInternal env content options forceUpdate w = Some (Inr result, w')
       \<and> lockFiles w' ''ingest.lock'' = None"
proof -
  obtain w1 where "acquire env ''ingest'' w = Inr w1"
    using acquire_succeeds by blast
  with catchFinally_unlocks [OF ingestContent_try_returns, of env content options forceUpdate w1]
  show ?thesis by (simp add: ingestContentInternal_def)
qed

lemma getSourceByUrl_db: "db w1 = db w \<Longrightarrow> getSourceByUrl u w1 = getSourceByUrl u w"
  by (simp add: getSourceByUrl_def)

lemma catchFinally_result:
  "catchFinally (Some (Inr result, w)) = Some (Inr result, release ''ingest'' w)"
  by (simp add: catchFinally_def)

subsection \<open>Rows created by an ingestion\<close>

lemma createChunk_sources:
  "createChunk env chunk w = (out, w') \<Longrightarrow> db w = Some d \<Longrightarrow>
     \<exists>d'. db w' = Some d' \<and> kb_sources d' = kb_sources d"
  by (auto simp: createChunk_def Let_def split: if_splits)

lemma storeChunks_sources:
  "storeChunks env sourceId i items stored w = (out, w') \<Longrightarrow> db w = Some d \<Longrightarrow>
     \<exists>d'. db w' = Some d' \<and> kb_sources d' = kb_sources d"
proof (induction env sourceId i items stored w arbitrary: d rule: storeChunks.induct)
  case (1 env sourceId i chunksStored w)
  then show ?case by simp
next
  case (2 env sourceId i chunk emb rest chunksStored w)
  show ?case
  proof (cases emb)
    case None
    with 2 show ?thesis by simp
  next
    case (Some e)
    obtain o1 w1 where c: "createChunk env
                 \<lparr>ci_source_id = sourceId, ci_chunk_index = i, ci_content = chunk,
                  ci_embedding = Some e, ci_embedding_dim = Some (length e),
                  ci_embedding_provider = Some ''ollama'',
                  ci_embedding_model = Some ''nomic-embed-text''\<rparr> w = (o1, w1)"
      by (cases "createChunk env
                 \<lparr>ci_source_id = sourceId, ci_chunk_index = i, ci_content = chunk,
                  ci_embedding = Some e, ci_embedding_dim = Some (length e),
                  ci_embedding_provider = Some ''ollama'',
                  ci_embedding_model = Some ''nomic-embed-text''\<rparr> w") auto
    from createChunk_sources [OF c "2.prems"(2)] obtain d1 where
      d1: "db w1 = Some d1" "kb_sources d1 = kb_sources d" by blast
    show ?thesis
    proof (cases o1)
      case (Inl err)
      with "2.prems"(1) Some c d1 show ?thesis by auto
    next
      case (Inr row)
      with "2.prems"(1) Some c have "storeChunks env sourceId (Suc i) rest (Suc chunksStored) w1 = (out, w')"
        by simp
      from "2.IH"(2) [OF Some _ _ this d1(1)] c Inr d1(2) show ?thesis by auto
    qed
  qed
qed

lemma createSource_row:
  assumes "createSource env input w = (Inr source, w1)" and "db w = Some d"
  shows "db w1 = Some (d\<lparr>kb_sources := kb_sources d @ [source]\<rparr>) \<and> s_url source = i_url input"
  using assms by (auto simp: createSource_def Let_def split: if_splits)

lemma createSource_row_all:
  "createSource env input w = (Inr source, w1) \<Longrightarrow>
     \<forall>d. db w = Some d \<longrightarrow>
       db w1 = Some (d\<lparr>kb_sources := kb_sources d @ [source]\<rparr>) \<and> s_url source = i_url input"
  using createSource_row by blast

lemma storeChunks_sources_all:
  "storeChunks env sourceId i items stored w = (out, w') \<Longrightarrow>
     \<forall>d. db w = Some d \<longrightarrow> (\<exists>d'. db w' = Some d' \<and> kb_sources d' = kb_sources d)"
  using storeChunks_sources by blast

lemma finishIngestion_created:
  assumes "finishIngestion env params w = Some (Inr r, w')" and "r_success r"
    and "p_existingSource params = None" and "db w = Some d"
  shows "\<exists>d' row. db w' = Some d' \<and> kb_sources d' = kb_sources d @ [row]
           \<and> s_url row = p_url params \<and> r_source_id r = Some (s_id row)"
  using assms unfolding finishIngestion_def Let_def
  by (auto simp: failed_def split: if_splits option.splits sum.splits prod.splits
      dest!: createSource_row_all storeChunks_sources_all)

lemma find_snoc:
  "find P xs = None \<Longrightarrow> P x \<Longrightarrow> find P (xs @ [x]) = Some x"
  by (induction xs) (simp_all split: if_splits)

lemma ingestUrl_duplicate:
  assumes "db w = Some d"
    and "find (\<lambda>row. s_url row = Some (normalizeUrl (urlApi env) url)) (kb_sources d) = Some existing"
  shows "\<exists>w'. ingestUrl env url options w = Some (Inr (duplicateUrlResult existing), w')
              \<and> db w' = db w"
proof -
  obtain w1 where w1: "acquire env ''ingest'' w = Inr w1" "db w1 = db w"
    using acquire_succeeds [of env "''ingest''" w] by blast
  have found: "getSourceByUrl (normalizeUrl (urlApi env) url) w1 = Inr (Some existing)"
    using assms w1(2) by (simp add: getSourceByUrl_def)
  have "ingestUrl_try env url options False w1 = Some (Inr (duplicateUrlResult existing), w1)"
    using found by (simp add: ingestUrl_try_def Let_def)
  then have "ingestUrl env url options w
               = Some (Inr (duplicateUrlResult existing), release ''ingest'' w1)"
    using w1(1) by (simp add: ingestUrl_def ingestUrlInternal_def catchFinally_result)
  moreover have "db (release ''ingest'' w1) = db w"
    using w1(2) by (simp add: release_db)
  ultimately show ?thesis by blast
qed

lemma ingestUrl_try_created:
  assumes "ingestUrl_try env url options False w = Some (Inr r, w')" and "r_success r"
    and "db w = Some d"
  shows "find (\<lambda>row. s_url row = Some (normalizeUrl (urlApi env) url)) (kb_sources d) = None
         \<and> (\<exists>d' row. db w' = Some d' \<and> kb_sources d' = kb_sources d @ [row]
               \<and> s_url row = Some (normalizeUrl (urlApi env) url)
               \<and> r_source_id r = Some (s_id row))"
proof -
  have g: "getSourceByUrl (normalizeUrl (urlApi env) url) w
             = Inr (find (\<lambda>row. s_url row = Some (normalizeUrl (urlApi env) url)) (kb_sources d))"
    using assms(3) by (simp add: getSourceByUrl_def)
  show ?thesis
  proof (cases "find (\<lambda>row. s_url row = Some (normalizeUrl (urlApi env) url)) (kb_sources d)")
    case (Some existing)
    with assms(1,2) g show ?thesis
      by (auto simp: ingestUrl_try_def Let_def duplicateUrlResult_def failed_def)
  next
    case None
    with assms(1,2) g obtain params where
      params: "finishIngestion env params w = Some (Inr r, w')"
        "p_url params = Some (normalizeUrl (urlApi env) url)" "p_existingSource params = None"
      unfolding ingestUrl_try_def Let_def
      by (auto simp: failed_def split: sum.splits option.splits)
    from finishIngestion_created [OF params(1) assms(2) params(3) assms(3)] params(2) None
    show ?thesis by auto
  qed
qed

lemma catchFinally_success:
  assumes "catchFinally tried = Some (Inr r, w1)" and "r_success r"
  shows "\<exists>w'. tried = Some (Inr r, w') \<and> w1 = release ''ingest'' w'"
  using assms
  by (auto simp: catchFinally_def failed_def split: option.splits sum.splits prod.splits)

text \<open>A URL that was ingested successfully is refused the second time: the second
  call, on any spelling that normalises to the same string, answers \<open>duplicate_url\<close>
  with the identifier the first call returned and leaves the database as it was.\<close>

lemma ingestUrl_twice:
  assumes "ingestUrl env url options w = Some (Inr r, w1)" and "r_success r"
    and "normalizeUrl (urlApi env2) url2 = normalizeUrl (urlApi env) url"
  shows "\<exists>r2 w2. ingestUrl env2 url2 options2 w1 = Some (Inr r2, w2)
           \<and> \<not> r_success r2 \<and> r_reason r2 = Some duplicate_url
           \<and> r_existingSourceId r2 = r_source_id r \<and> db w2 = db w1"
proof -
  obtain w0 where w0: "acquire env ''ingest'' w = Inr w0" "db w0 = db w"
    using acquire_succeeds [of env "''ingest''" w] by blast
  with assms(1) have "catchFinally (ingestUrl_try env url options False w0) = Some (Inr r, w1)"
    by (simp add: ingestUrl_def ingestUrlInternal_def)
  from catchFinally_success [OF this assms(2)] obtain w' where
    tried: "ingestUrl_try env url options False w0 = Some (Inr r, w')"
    and w1: "w1 = release ''ingest'' w'"
    by blast
  obtain d where d: "db w0 = Some d"
  proof (cases "db w0")
    case None
    with tried assms(2) show ?thesis
      by (simp add: ingestUrl_try_def Let_def getSourceByUrl_def)
  next
    case (Some d)
    with that show ?thesis .
  qed
  from ingestUrl_try_created [OF tried assms(2) d] obtain d' row where
    none: "find (\<lambda>row. s_url row = Some (normalizeUrl (urlApi env) url)) (kb_sources d) = None"
    and d': "db w' = Some d'" "kb_sources d' = kb_sources d @ [row]"
      "s_url row = Some (normalizeUrl (urlApi env) url)" "r_source_id r = Some (s_id row)"
    by blast
  have db1: "db w1 = Some d'"
    using d'(1) w1 by (simp add: release_db)
  have "find (\<lambda>row. s_url row = Some (normalizeUrl (urlApi env2) url2)) (kb_sources d') = Some row"
    using none d'(2,3) assms(3) by (simp add: find_snoc)
  from ingestUrl_duplicate [OF db1 this, of options2] obtain w2 where
    "ingestUrl env2 url2 options2 w1 = Some (Inr (duplicateUrlResult row), w2)" "db w2 = db w1"
    by blast
  with d'(4) show ?thesis
    by (auto simp: duplicateUrlResult_def failed_def)
qed


section \<open>Lemmas on search\<close>

lemma cosineLoop_sums:
  "length a = length b \<Longrightarrow>
     cosineLoop a b (d, na, nb)
       = (d + sum_list (map (\<lambda>(x, y). x * y) (zip a b)),
          na + sum_list (map (\<lambda>x. x * x) a), nb + sum_list (map (\<lambda>x. x * x) b))"
  by (induction a b arbitrary: d na nb rule: list_induct2) simp_all

lemma cauchy_step:
  fixes d x y na nb :: real
  assumes "d * d \<le> na * nb" "0 \<le> na" "0 \<le> nb"
  shows "(d + x * y) * (d + x * y) \<le> (na + x * x) * (nb + y * y)"
proof -
  define s where "s = na * (y * y) + nb * (x * x)"
  have s: "0 \<le> s"
    using assms(2,3) by (simp add: s_def)
  have "(2 * d * x * y)\<^sup>2 = 4 * (d * d) * ((x * x) * (y * y))"
    by (simp add: power2_eq_square algebra_simps)
  also have "\<dots> \<le> 4 * (na * nb) * ((x * x) * (y * y))"
    using assms(1) by (intro mult_right_mono mult_left_mono) simp_all
  also have "\<dots> \<le> s\<^sup>2"
  proof -
    have "s\<^sup>2 - 4 * (na * nb) * ((x * x) * (y * y)) = (na * (y * y) - nb * (x * x))\<^sup>2"
      by (simp add: s_def power2_eq_square algebra_simps)
    moreover have "0 \<le> (na * (y * y) - nb * (x * x))\<^sup>2"
      by (rule zero_le_power2)
    ultimately show ?thesis by linarith
  qed
  finally have "2 * d * x * y \<le> s"
    using s by (rule power2_le_imp_le)
  moreover have "(na + x * x) * (nb + y * y) - (d + x * y) * (d + x * y)
                   = (na * nb - d * d) + (s - 2 * d * x * y)"
    by (simp add: s_def algebra_simps)
  ultimately show ?thesis
    using assms(1) by linarith
qed

lemma cosineLoop_invariant:
  assumes "d * d \<le> na * nb" "0 \<le> na" "0 \<le> nb"
  shows "case cosineLoop a b (d, na, nb) of
           (d', na', nb') \<Rightarrow> d' * d' \<le> na' * nb' \<and> 0 \<le> na' \<and> 0 \<le> nb'"
  using assms
proof (induction a b "(d, na, nb)" arbitrary: d na nb rule: cosineLoop.induct)
  case (1 x a y b d na nb)
  have "(d + x * y) * (d + x * y) \<le> (na + x * x) * (nb + y * y)"
    using 1(2-4) by (rule cauchy_step)
  moreover have "0 \<le> na + x * x" "0 \<le> nb + y * y"
    using 1(3,4) by simp_all
  ultimately show ?case using 1(1) by simp
qed auto

lemma cosineSimilarity_le_1: "cosineSimilarity a b \<le> 1"
proof (cases "length a = length b")
  case False
  then show ?thesis by (simp add: cosineSimilarity_def)
next
  case True
  obtain d na nb where loop: "cosineLoop a b (0, 0, 0) = (d, na, nb)"
    by (cases "cosineLoop a b (0, 0, 0)") auto
  with cosineLoop_invariant [of 0 0 0 a b] have inv: "d * d \<le> na * nb" "0 \<le> na" "0 \<le> nb"
    by simp_all
  have "\<bar>d\<bar> = sqrt (d * d)" by simp
  also have "\<dots> \<le> sqrt (na * nb)"
    using inv(1) by (rule real_sqrt_le_mono)
  also have "\<dots> = sqrt na * sqrt nb"
    by (rule real_sqrt_mult)
  finally have le: "d \<le> sqrt na * sqrt nb" by linarith
  have nonneg: "0 \<le> sqrt na * sqrt nb"
    using inv(2,3) by simp
  show ?thesis
  proof (cases "sqrt na * sqrt nb = 0")
    case True
    with loop \<open>length a = length b\<close> show ?thesis
      by (simp add: cosineSimilarity_def)
  next
    case False
    with nonneg have "0 < sqrt na * sqrt nb" by linarith
    with le have "d / (sqrt na * sqrt nb) \<le> 1" by simp
    with loop False \<open>length a = length b\<close> show ?thesis
      by (simp add: cosineSimilarity_def)
  qed
qed

lemma vssSimilarity_le_1: "vssSimilarity distance \<le> 1"
proof -
  have "0 \<le> distance * distance" by simp
  then show ?thesis unfolding vssSimilarity_def by linarith
qed

lemma vssSimilarity_nonneg: "0 \<le> vssSimilarity distance"
  by (simp add: vssSimilarity_def)

lemma squaredDistance_expand:
  "length a = length b \<Longrightarrow>
     squaredDistance a b
       = sum_list (map (\<lambda>x. x * x) a) + sum_list (map (\<lambda>x. x * x) b)
         - 2 * sum_list (map (\<lambda>(x, y). x * y) (zip a b))"
  unfolding squaredDistance_def
  by (induction a b rule: list_induct2) (simp_all add: algebra_simps)

lemma cosineSimilarity_unit:
  assumes "length a = length b" "isUnitVector a" "isUnitVector b"
  shows "cosineSimilarity a b = sum_list (map (\<lambda>(x, y). x * y) (zip a b))"
  using assms by (simp add: cosineSimilarity_def cosineLoop_sums isUnitVector_def)

lemma sortedBySimilarity_sort: "sortedBySimilarity (sortBySimilarity results)"
proof -
  have "sorted (map (\<lambda>r. - sr_similarity r) (sort_key (\<lambda>r. - sr_similarity r) results))"
    by (rule sorted_sort_key)
  then show ?thesis
    by (simp add: sortedBySimilarity_def sortBySimilarity_def sorted_map)
qed

lemma sortedBySimilarity_Nil: "sortedBySimilarity []"
  by (simp add: sortedBySimilarity_def)

lemma sortedBySimilarity_sliceTo:
  "sortedBySimilarity results \<Longrightarrow> sortedBySimilarity (sliceTo results limit)"
  by (simp add: sortedBySimilarity_def sliceTo_def sorted_wrt_take)

lemma sortedBySimilarity_processAndRankResults:
  "sortedBySimilarity (processAndRankResults results limit dedupeBySource)"
  unfolding processAndRankResults_def Let_def
  by (intro sortedBySimilarity_sliceTo) (simp add: sortedBySimilarity_sort)

lemma processAndRankResults_Nil: "processAndRankResults [] limit dedupeBySource = []"
  by (simp add: processAndRankResults_def sortBySimilarity_def sliceTo_def)

lemma processAndRankResults_all:
  "0 \<le> limit \<Longrightarrow>
     processAndRankResults results limit False = take (nat limit) (sortBySimilarity results)"
  by (simp add: processAndRankResults_def sliceTo_def)

lemma filter_vss_above_1:
  assumes "1 < m"
  shows "filter (\<lambda>r. sr_similarity r \<ge> m)
           (map (\<lambda>(row, distance). toResult row (vssSimilarity distance)) rows) = []"
proof -
  have "\<not> m \<le> vssSimilarity distance" for distance
    using vssSimilarity_le_1 [of distance] assms by linarith
  then show ?thesis
    by (auto simp: filter_empty_conv toResult_def)
qed

lemma filter_cosine_above_1:
  assumes "1 < m"
  shows "filter (\<lambda>r. sr_similarity r \<ge> m)
           (map (\<lambda>(row, chunkEmbedding). toResult row (cosineSimilarity q chunkEmbedding)) rows) = []"
proof -
  have "\<not> m \<le> cosineSimilarity q e" for e
    using cosineSimilarity_le_1 [of q e] assms by linarith
  then show ?thesis
    by (auto simp: filter_empty_conv toResult_def)
qed

lemma filter_vss_at_0:
  "filter (\<lambda>r. sr_similarity r \<ge> 0)
     (map (\<lambda>(row, distance). toResult row (vssSimilarity distance)) rows)
   = map (\<lambda>(row, distance). toResult row (vssSimilarity distance)) rows"
  by (auto simp: filter_id_conv toResult_def vssSimilarity_nonneg)

lemma cosineSimilarity_example_neg: "cosineSimilarity [1, 0] [-1, 0] = -1"
  by (simp add: cosineSimilarity_def)

lemma cosineSimilarity_example_same: "cosineSimilarity [1, 0] [1, 0] = 1"
  by (simp add: cosineSimilarity_def)

lemma embeddedRows_oneChunkDb:
  "embeddedRows (kb_sources (oneChunkDb e)) (kb_chunks (oneChunkDb e))
     = [(\<lparr>row_id = 1, row_source_id = ''kb-999000-xyz789'', row_content = ''stored text'',
          row_source_url = Some ''https://example.com/a'', row_source_title = Some ''A'',
          row_source_type = Article\<rparr>, e)]"
  by (simp add: oneChunkDb_def storedSource_def)

lemma squaredDistance_unit:
  assumes "length a = length b" and "isUnitVector a" and "isUnitVector b"
  shows "squaredDistance a b = 2 - 2 * cosineSimilarity a b"
  using assms
  by (simp add: squaredDistance_expand cosineSimilarity_unit) (simp add: isUnitVector_def)

text \<open>
  The conversion of the accelerated path, \<open>max(0, 1 - distance\<^sup>2 / 2)\<close>, on unit vectors: it
  is the clamped cosine when \<open>distance\<close> is the Euclidean distance itself. When
  \<open>distance\<close> is the squared Euclidean distance, squaring it again gives
  \<open>max(0, 1 - 2 (1 - cos)\<^sup>2)\<close>, which for a cosine that is not negative is the cosine only
  at 0, 1/2 and 1.
\<close>

lemma vssSimilarity_of_distance:
  assumes "length a = length b" and "isUnitVector a" and "isUnitVector b"
    and "distance * distance = squaredDistance a b"
  shows "vssSimilarity distance = max 0 (cosineSimilarity a b)"
proof -
  from assms(4) squaredDistance_unit [OF assms(1-3)]
  have "1 - (distance * distance) / 2 = cosineSimilarity a b"
    by (simp add: diff_divide_distrib)
  then show ?thesis by (simp add: vssSimilarity_def)
qed

lemma vssSimilarity_of_squaredDistance:
  assumes "length a = length b" and "isUnitVector a" and "isUnitVector b"
  shows "vssSimilarity (squaredDistance a b) = max 0 (1 - 2 * (1 - cosineSimilarity a b)\<^sup>2)"
proof -
  have "(2 - 2 * c) * (2 - 2 * c) = 2 * (2 * (1 - c)\<^sup>2)" for c :: real
    by (simp add: power2_eq_square algebra_simps)
  then have "(2 - 2 * c) * (2 - 2 * c) / 2 = 2 * (1 - c)\<^sup>2" for c :: real
    by simp
  then show ?thesis
    by (simp only: vssSimilarity_def squaredDistance_unit [OF assms])
qed

lemma vssSimilarity_squaredDistance_eq_iff:
  assumes "length a = length b" and "isUnitVector a" and "isUnitVector b"
    and "0 \<le> cosineSimilarity a b"
  shows "vssSimilarity (squaredDistance a b) = cosineSimilarity a b
         \<longleftrightarrow> cosineSimilarity a b = 1 \<or> cosineSimilarity a b = 1 / 2 \<or> cosineSimilarity a b = 0"
proof -
  define c where "c = cosineSimilarity a b"
  have c: "0 \<le> c" using assms(4) by (simp add: c_def)
  have sq: "(1 - c)\<^sup>2 = 1 - 2 * c + c * c"
    by (simp add: power2_eq_square algebra_simps)
  have "max 0 (1 - 2 * (1 - c)\<^sup>2) = c \<longleftrightarrow> c = 1 \<or> c = 1 / 2 \<or> c = 0"
  proof
    assume m: "max 0 (1 - 2 * (1 - c)\<^sup>2) = c"
    show "c = 1 \<or> c = 1 / 2 \<or> c = 0"
    proof (cases "c = 0")
      case True then show ?thesis by simp
    next
      case False
      with m c have "1 - 2 * (1 - c)\<^sup>2 = c" by (simp add: max_def split: if_splits)
      then have "(c - 1) * (2 * c - 1) = 0"
        unfolding sq by (simp add: algebra_simps)
      then show ?thesis by auto
    qed
  next
    have one: "max 0 (1 - 2 * (1 - (1 :: real))\<^sup>2) = 1" by simp
    have half: "max 0 (1 - 2 * (1 - (1 / 2 :: real))\<^sup>2) = 1 / 2"
      by (simp add: power2_eq_square)
    have zero: "max 0 (1 - 2 * (1 - (0 :: real))\<^sup>2) = 0" by simp
    assume "c = 1 \<or> c = 1 / 2 \<or> c = 0"
    with one half zero show "max 0 (1 - 2 * (1 - c)\<^sup>2) = c"
      by blast
  qed
  then show ?thesis
    unfolding c_def vssSimilarity_of_squaredDistance [OF assms(1-3)] .
qed

lemma vssSimilarity_clamped_example:
  "vssSimilarity (squaredDistance [1, 0] [- 1, 0]) = 0 \<and> cosineSimilarity [1, 0] [- 1, 0] = - 1"
  by (simp add: vssSimilarity_def squaredDistance_def cosineSimilarity_example_neg)

lemma cosineSimilarity_example_35: "cosineSimilarity [1, 0] [3 / 5, 4 / 5] = 3 / 5"
  by (subst cosineSimilarity_unit) (simp_all add: isUnitVector_def)

section \<open>Claims\<close>

text \<open>
  C1, at a failing input. The lock file of \<open>ingest\<close> is one second old and holds the id
  of a process that is alive. \<open>acquire\<close> does not fail: the error raised after the
  liveness probe is thrown inside the \<open>try\<close> block and caught by its own \<open>catch\<close>, which
  deletes the file; the file is then written again with the caller's id.
\<close>

theorem acquire_overwrites_live_lock:
  "now exampleEnv - 999000 \<le> STALE_AGE_MS
   \<and> lockFiles heldLockWorld ''ingest.lock'' = Some \<lparr>lf_content = ''4242'', lf_mtimeMs = 999000\<rparr>
   \<and> parseInt10 ''4242'' = Some 4242
   \<and> processAlive exampleEnv 4242
   \<and> (\<exists>w'. acquire exampleEnv ''ingest'' heldLockWorld = Inr w'
          \<and> lockFiles w' ''ingest.lock'' = Some \<lparr>lf_content = ''7'', lf_mtimeMs = 1000000\<rparr>)"
proof -
  have "parseInt10 ''4242'' = Some 4242" by code_simp
  moreover have "toStringNat 7 = ''7''" by code_simp
  moreover have "now exampleEnv - 999000 \<le> STALE_AGE_MS"
    by (simp add: exampleEnv_def STALE_AGE_MS_def)
  ultimately show ?thesis
    using acquire_succeeds [of exampleEnv "''ingest''" heldLockWorld]
    by (auto simp: exampleEnv_def heldLockWorld_def)
qed

text \<open>
  C2, at a failing input. The query \<open>(1, 0)\<close> and the stored chunk \<open>(3/5, 4/5)\<close> are unit
  vectors; their squared Euclidean distance, which the index reports, is 4/5 and their
  cosine similarity is 3/5, as is \<open>1 - (4/5) / 2\<close>. The accelerated path multiplies the
  reported value by itself before halving it, so its score is \<open>1 - (4/5)\<^sup>2 / 2 = 17/25\<close>:
  with \<open>minSimilarity = 1/2\<close> the search through the index returns the chunk with
  similarity 17/25 and the search without the index returns it with similarity 3/5.
\<close>

theorem accelerated_score_squares_twice:
  "length [1, 0 :: real] = length [3 / 5, 4 / 5 :: real]
   \<and> isUnitVector [1, 0] \<and> isUnitVector [3 / 5, 4 / 5]
   \<and> squaredDistance [1, 0] [3 / 5, 4 / 5] = 4 / 5
   \<and> cosineSimilarity [1, 0] [3 / 5, 4 / 5] = 3 / 5
   \<and> vssSimilarity (squaredDistance [1, 0] [3 / 5, 4 / 5]) = 17 / 25
   \<and> search (indexedEnv (4 / 5)) ''q'' (searchOptions (1 / 2)) (oneChunkWorld [3 / 5, 4 / 5])
       = Inr [\<lparr>sr_chunk_id = 1, sr_source_id = ''kb-999000-xyz789'',
                sr_source_url = Some ''https://example.com/a'', sr_source_title = Some ''A'',
                sr_source_type = Article, sr_content = ''stored text'', sr_similarity = 17 / 25\<rparr>]
   \<and> search unitQueryEnv ''q'' (searchOptions (1 / 2)) (oneChunkWorld [3 / 5, 4 / 5])
       = Inr [\<lparr>sr_chunk_id = 1, sr_source_id = ''kb-999000-xyz789'',
                sr_source_url = Some ''https://example.com/a'', sr_source_title = Some ''A'',
                sr_source_type = Article, sr_content = ''stored text'', sr_similarity = 3 / 5\<rparr>]"
proof -
  have n: "length (filter (\<lambda>c. c_embedding c \<noteq> None) (kb_chunks (oneChunkDb [3 / 5, 4 / 5]))) = 1"
    by (simp add: oneChunkDb_def)
  have acc: "search (indexedEnv (4 / 5)) ''q'' (searchOptions (1 / 2)) (oneChunkWorld [3 / 5, 4 / 5])
       = Inr [\<lparr>sr_chunk_id = 1, sr_source_id = ''kb-999000-xyz789'',
                sr_source_url = Some ''https://example.com/a'', sr_source_title = Some ''A'',
                sr_source_type = Article, sr_content = ''stored text'', sr_similarity = 17 / 25\<rparr>]"
    using n
    by (simp add: search_def Let_def oneChunkWorld_def indexedEnv_def toResult_def
        vssSimilarity_def processAndRankResults_def sortBySimilarity_def sliceTo_def
        minSimilarityOf_def limitOf_def dedupeBySourceOf_def searchOptions_def)
  have fb: "search unitQueryEnv ''q'' (searchOptions (1 / 2)) (oneChunkWorld [3 / 5, 4 / 5])
       = Inr [\<lparr>sr_chunk_id = 1, sr_source_id = ''kb-999000-xyz789'',
                sr_source_url = Some ''https://example.com/a'', sr_source_title = Some ''A'',
                sr_source_type = Article, sr_content = ''stored text'', sr_similarity = 3 / 5\<rparr>]"
    using n
    by (simp add: search_def fallbackSearch_def Let_def oneChunkWorld_def unitQueryEnv_def
        embeddedRows_oneChunkDb cosineSimilarity_example_35 toResult_def
        processAndRankResults_def sortBySimilarity_def sliceTo_def
        minSimilarityOf_def limitOf_def dedupeBySourceOf_def searchOptions_def)
  have d: "squaredDistance [1, 0] [3 / 5, 4 / 5] = 4 / 5"
    by (simp add: squaredDistance_def)
  have vec: "length [1, 0 :: real] = length [3 / 5, 4 / 5 :: real]
   \<and> isUnitVector [1, 0] \<and> isUnitVector [3 / 5, 4 / 5]
   \<and> squaredDistance [1, 0] [3 / 5, 4 / 5] = 4 / 5
   \<and> cosineSimilarity [1, 0] [3 / 5, 4 / 5] = 3 / 5
   \<and> vssSimilarity (squaredDistance [1, 0] [3 / 5, 4 / 5]) = 17 / 25"
    unfolding d
    by (simp add: isUnitVector_def vssSimilarity_def cosineSimilarity_example_35)
  from vec acc fb show ?thesis by blast
qed

text \<open>
  C3 (as amended). When \<open>chunkSize\<close> is at least 1, \<open>chunkText\<close> returns. The loop cuts the
  text into consecutive segments, each from the end of the one before it to the cut made
  there, none empty, that together are the text, with no gap and no overlap. Every chunk
  returned has at least \<open>minChunk\<close> characters. Unless the text ends in a short remainder,
  the chunks returned are, in order, the trimmed segments that have at least \<open>minChunk\<close>
  characters, so the text of a shorter segment and the white space around a segment are
  in no chunk. When the text ends in a short remainder, the remainder is not a chunk of
  its own: the chunks returned are the kept chunks of the segments before it, either as
  they are or with the remainder appended to the last of them; which of the two is not
  stated.
\<close>

theorem chunkText_cuts:
  assumes "0 < chunkSizeOf options"
  shows "\<exists>chunks segs. chunkText text options = Some chunks
           \<and> isLoopSegments text (chunkSizeOf options) (overlapOf options) 0 segs
           \<and> concat segs = text \<and> [] \<notin> set segs
           \<and> (\<forall>c\<in>set chunks. minChunkOf options \<le> length c)
           \<and> (\<not> endsInShortRemainder (minChunkOf options) segs
                \<longrightarrow> chunks = keptChunks (minChunkOf options) segs)
           \<and> (endsInShortRemainder (minChunkOf options) segs
                \<longrightarrow> chunks = keptChunks (minChunkOf options) (butlast segs)
                    \<or> chunks = appendRemainder (keptChunks (minChunkOf options) (butlast segs))
                                 (last segs))"
proof -
  from chunkText_returns [OF assms, of "text"] obtain segs where
    segs: "chunkText text options = Some (keptChunks (minChunkOf options) segs)"
      "isLoopSegments text (chunkSizeOf options) (overlapOf options) 0 segs"
      "concat segs = text" "[] \<notin> set segs"
    by blast
  have short: "keptChunks (minChunkOf options) segs = keptChunks (minChunkOf options) (butlast segs)"
    if "endsInShortRemainder (minChunkOf options) segs"
    using that by (rule keptChunks_short_last)
  have "\<forall>c\<in>set (keptChunks (minChunkOf options) segs). minChunkOf options \<le> length c"
    by (simp add: keptChunks_min)
  with segs short show ?thesis
    by (intro exI [of _ "keptChunks (minChunkOf options) segs"] exI [of _ segs]) blast
qed

theorem chunkText_cuts_witness:
  "0 < chunkSizeOf \<lparr>opt_chunkSize = Some 6, opt_overlap = Some 2, opt_minChunk = Some 3\<rparr>
   \<and> chunkText ''hello world foo bar baz''
        \<lparr>opt_chunkSize = Some 6, opt_overlap = Some 2, opt_minChunk = Some 3\<rparr>
       = Some [''hello'', ''world'', ''foo bar'', ''baz'']
   \<and> isLoopSegments ''hello world foo bar baz'' 6 2 0 [''hello '', ''world '', ''foo bar '', ''baz'']
   \<and> \<not> endsInShortRemainder 3 [''hello '', ''world '', ''foo bar '', ''baz'']
   \<and> [''hello'', ''world'', ''foo bar'', ''baz'']
        = keptChunks 3 [''hello '', ''world '', ''foo bar '', ''baz'']
   \<and> 0 < chunkSizeOf \<lparr>opt_chunkSize = Some 12, opt_overlap = Some 4, opt_minChunk = Some 5\<rparr>
   \<and> chunkText ''Alpha beta. Gamma delta epsilon. Zeta''
        \<lparr>opt_chunkSize = Some 12, opt_overlap = Some 4, opt_minChunk = Some 5\<rparr>
       = Some [''Alpha beta.'', ''Gamma delta'', ''epsilon.'']
   \<and> isLoopSegments ''Alpha beta. Gamma delta epsilon. Zeta'' 12 4 0
        [''Alpha beta. '', ''Gamma delta '', ''epsilon. '', ''Zeta'']
   \<and> endsInShortRemainder 5 [''Alpha beta. '', ''Gamma delta '', ''epsilon. '', ''Zeta'']
   \<and> ([''Alpha beta.'', ''Gamma delta'', ''epsilon.'']
         = keptChunks 5 [''Alpha beta. '', ''Gamma delta '', ''epsilon. '']
        \<or> [''Alpha beta.'', ''Gamma delta'', ''epsilon.'']
            = appendRemainder (keptChunks 5 [''Alpha beta. '', ''Gamma delta '', ''epsilon. '']) ''Zeta'')"
proof -
  let ?O1 = "\<lparr>opt_chunkSize = Some 6, opt_overlap = Some 2, opt_minChunk = Some 3\<rparr>"
  let ?S1 = "[''hello '', ''world '', ''foo bar '', ''baz'']"
  let ?O2 = "\<lparr>opt_chunkSize = Some 12, opt_overlap = Some 4, opt_minChunk = Some 5\<rparr>"
  let ?S2 = "[''Alpha beta. '', ''Gamma delta '', ''epsilon. '', ''Zeta'']"
  have o1: "chunkSizeOf ?O1 = 6" "overlapOf ?O1 = 2" "minChunkOf ?O1 = 3"
    by (simp_all add: chunkSizeOf_def overlapOf_def minChunkOf_def)
  have o2: "chunkSizeOf ?O2 = 12" "overlapOf ?O2 = 4" "minChunkOf ?O2 = 5"
    by (simp_all add: chunkSizeOf_def overlapOf_def minChunkOf_def)
  have pos1: "0 < chunkSizeOf ?O1" and pos2: "0 < chunkSizeOf ?O2"
    by (simp_all add: o1 o2)
  have run1: "chunkText ''hello world foo bar baz'' ?O1 = Some [''hello'', ''world'', ''foo bar'', ''baz'']"
    by code_simp
  have run2: "chunkText ''Alpha beta. Gamma delta epsilon. Zeta'' ?O2
                = Some [''Alpha beta.'', ''Gamma delta'', ''epsilon.'']"
    by code_simp
  have cut1: "isLoopSegments ''hello world foo bar baz'' 6 2 0 ?S1"
    by code_simp
  have cut2: "isLoopSegments ''Alpha beta. Gamma delta epsilon. Zeta'' 12 4 0 ?S2"
    by code_simp
  have n1: "\<not> endsInShortRemainder 3 ?S1"
    by code_simp
  have s2: "endsInShortRemainder 5 ?S2"
    by code_simp
  from chunkText_cuts [OF pos1, of "''hello world foo bar baz''"] obtain segs where
    "isLoopSegments ''hello world foo bar baz'' 6 2 0 segs"
    "\<not> endsInShortRemainder 3 segs
       \<longrightarrow> [''hello'', ''world'', ''foo bar'', ''baz''] = keptChunks 3 segs"
    unfolding o1 run1 by auto
  with cut1 n1 have k1: "[''hello'', ''world'', ''foo bar'', ''baz''] = keptChunks 3 ?S1"
    using isLoopSegments_unique by blast
  from chunkText_cuts [OF pos2, of "''Alpha beta. Gamma delta epsilon. Zeta''"] obtain segs where
    "isLoopSegments ''Alpha beta. Gamma delta epsilon. Zeta'' 12 4 0 segs"
    "endsInShortRemainder 5 segs
       \<longrightarrow> [''Alpha beta.'', ''Gamma delta'', ''epsilon.''] = keptChunks 5 (butlast segs)
           \<or> [''Alpha beta.'', ''Gamma delta'', ''epsilon.'']
               = appendRemainder (keptChunks 5 (butlast segs)) (last segs)"
    unfolding o2 run2 by auto
  with cut2 s2 have "[''Alpha beta.'', ''Gamma delta'', ''epsilon.''] = keptChunks 5 (butlast ?S2)
           \<or> [''Alpha beta.'', ''Gamma delta'', ''epsilon.'']
               = appendRemainder (keptChunks 5 (butlast ?S2)) (last ?S2)"
    using isLoopSegments_unique by blast
  moreover have "butlast ?S2 = [''Alpha beta. '', ''Gamma delta '', ''epsilon. '']"
    and "last ?S2 = ''Zeta''"
    by simp_all
  ultimately have k2: "[''Alpha beta.'', ''Gamma delta'', ''epsilon.'']
         = keptChunks 5 [''Alpha beta. '', ''Gamma delta '', ''epsilon. '']
        \<or> [''Alpha beta.'', ''Gamma delta'', ''epsilon.'']
            = appendRemainder (keptChunks 5 [''Alpha beta. '', ''Gamma delta '', ''epsilon. '']) ''Zeta''"
    by (simp only:)
  from pos1 run1 cut1 n1 k1 pos2 run2 cut2 s2 k2 show ?thesis
    by (simp only: simp_thms)
qed

text \<open>
  C3 as stated fails: a text shorter than \<open>minChunk\<close> gives no chunk at all, and the
  white space at a cut is in no chunk, so the chunks do not cover the text; and with
  \<open>chunkSize = 0\<close> and \<open>overlap = 0\<close> the loop never ends, so nothing is returned.
\<close>

theorem chunkText_gap_counterexample:
  "chunkText ''aaa'' \<lparr>opt_chunkSize = None, opt_overlap = None, opt_minChunk = None\<rparr> = Some []
   \<and> \<not> coversText [] ''aaa''
   \<and> chunkText ''aaaa bbbb'' \<lparr>opt_chunkSize = Some 5, opt_overlap = Some 0, opt_minChunk = Some 1\<rparr>
       = Some [''aaaa'', ''bbbb'']
   \<and> \<not> coversText [''aaaa'', ''bbbb''] ''aaaa bbbb''
   \<and> chunkText ''ab'' \<lparr>opt_chunkSize = Some 0, opt_overlap = Some 0, opt_minChunk = Some 1\<rparr> = None"
proof -
  have "cutEnd ''ab'' 0 0 0 = 0" by code_simp
  then have "chunkLoop ''ab'' 0 0 1 [] 0 = None"
    by (intro chunkLoop_stuck) simp_all
  then have "chunkText ''ab'' \<lparr>opt_chunkSize = Some 0, opt_overlap = Some 0, opt_minChunk = Some 1\<rparr> = None"
    by (simp add: chunkText_def chunkSizeOf_def overlapOf_def minChunkOf_def)
  moreover
  have "chunkText ''aaa'' \<lparr>opt_chunkSize = None, opt_overlap = None, opt_minChunk = None\<rparr> = Some []"
    by code_simp
  moreover have "chunkText ''aaaa bbbb'' \<lparr>opt_chunkSize = Some 5, opt_overlap = Some 0, opt_minChunk = Some 1\<rparr>
       = Some [''aaaa'', ''bbbb'']"
    by code_simp
  moreover have "\<not> coversText [] ''aaa''"
    using coversText_length [of "[]" "''aaa''"] by auto
  moreover have "\<not> coversText [''aaaa'', ''bbbb''] ''aaaa bbbb''"
    using coversText_length [of "[''aaaa'', ''bbbb'']" "''aaaa bbbb''"] by auto
  ultimately show ?thesis by blast
qed

text \<open>
  C4, at a failing input. For a platform on which the two strings below are their own
  \<open>href\<close>, as they are for the URL parser of the standard, \<open>normalizeUrl\<close> applied to
  \<open>https://example.com/a/#b\<close> keeps the slash before the fragment, and applied again
  removes it: the trailing slash is stripped before the fragment is.
\<close>

theorem normalizeUrl_twice_differs:
  assumes "hrefWithoutTracking api ''https://example.com/a/#b'' = Some ''https://example.com/a/#b''"
    and "hrefWithoutTracking api ''https://example.com/a/'' = Some ''https://example.com/a/''"
  shows "normalizeUrl api ''https://example.com/a/#b'' = ''https://example.com/a/''
         \<and> normalizeUrl api (normalizeUrl api ''https://example.com/a/#b'') = ''https://example.com/a''"
proof -
  have p1: "(if \<not> hasHttpScheme (trim ''https://example.com/a/#b'')
             then ''https://'' @ trim ''https://example.com/a/#b''
             else trim ''https://example.com/a/#b'') = ''https://example.com/a/#b''"
    by code_simp
  have p2: "(if \<not> hasHttpScheme (trim ''https://example.com/a/'')
             then ''https://'' @ trim ''https://example.com/a/''
             else trim ''https://example.com/a/'') = ''https://example.com/a/''"
    by code_simp
  have q1: "(let n = stripTrailingSlash
                      (replaceFirstIgnoreCase ''://x.com/'' ''://twitter.com/''
                         (stripWww ''https://example.com/a/#b''))
            in case indexOf n CHR ''#'' of Some hashIdx \<Rightarrow> slice n 0 hashIdx | None \<Rightarrow> n)
           = ''https://example.com/a/''"
    by code_simp
  have q2: "(let n = stripTrailingSlash
                      (replaceFirstIgnoreCase ''://x.com/'' ''://twitter.com/''
                         (stripWww ''https://example.com/a/''))
            in case indexOf n CHR ''#'' of Some hashIdx \<Rightarrow> slice n 0 hashIdx | None \<Rightarrow> n)
           = ''https://example.com/a''"
    by code_simp
  have first: "normalizeUrl api ''https://example.com/a/#b'' = ''https://example.com/a/''"
    using normalizeUrl_via_href [of api "''https://example.com/a/#b''" "''https://example.com/a/#b''"]
      assms(1) p1 q1 by simp
  have second: "normalizeUrl api ''https://example.com/a/'' = ''https://example.com/a''"
    using normalizeUrl_via_href [of api "''https://example.com/a/''" "''https://example.com/a/''"]
      assms(2) p2 q2 by simp
  from first second show ?thesis by simp
qed

theorem normalizeUrl_twice_differs_witness:
  "hrefWithoutTracking serialisedUrlApi ''https://example.com/a/#b'' = Some ''https://example.com/a/#b''
   \<and> hrefWithoutTracking serialisedUrlApi ''https://example.com/a/'' = Some ''https://example.com/a/''
   \<and> normalizeUrl serialisedUrlApi ''https://example.com/a/#b'' = ''https://example.com/a/''
   \<and> normalizeUrl serialisedUrlApi (normalizeUrl serialisedUrlApi ''https://example.com/a/#b'')
       = ''https://example.com/a''"
proof -
  have h: "hrefWithoutTracking serialisedUrlApi s = Some s" for s
    by (simp add: hrefWithoutTracking_def serialisedUrlApi_def TRACKING_PARAMS_def)
  from normalizeUrl_twice_differs [OF h h]
    h [of "''https://example.com/a/#b''"] h [of "''https://example.com/a/''"]
  show ?thesis by blast
qed

text \<open>
  C5 (as amended). For an initialised database, an available provider and a query whose
  embedding succeeds: with \<open>minSimilarity = 1.1\<close> the search returns nothing. With
  \<open>minSimilarity = 0\<close>, \<open>dedupeBySource = false\<close> and a limit that is not negative it
  returns the first \<open>limit\<close> candidates in descending order of similarity, where the
  candidates are every row the index returned on the accelerated path, and on the
  fallback path every chunk with an embedding whose cosine similarity is not negative.
  Every result list is in descending order of similarity.
\<close>

theorem search_thresholds:
  assumes "db w = Some d" and "ollamaAvailable w" and "generateEmbedding senv query = Some qe"
  shows "(so_minSimilarity options = Some (11 / 10) \<longrightarrow> search senv query options w = Inr [])
     \<and> (so_minSimilarity options = Some 0 \<and> so_dedupeBySource options = Some False
          \<and> 0 \<le> limitOf options \<longrightarrow>
        (filter (\<lambda>c. c_embedding c \<noteq> None) (kb_chunks d) = []
           \<longrightarrow> search senv query options w = Inr [])
        \<and> (\<forall>rows. filter (\<lambda>c. c_embedding c \<noteq> None) (kb_chunks d) \<noteq> []
              \<and> vssSearch senv qe
                   (min (limitOf options * 3)
                      (int (length (filter (\<lambda>c. c_embedding c \<noteq> None) (kb_chunks d))))) = Inr rows
           \<longrightarrow> search senv query options w
                 = Inr (take (nat (limitOf options))
                         (sortBySimilarity
                            (map (\<lambda>(row, distance). toResult row (vssSimilarity distance)) rows))))
        \<and> (\<forall>err. filter (\<lambda>c. c_embedding c \<noteq> None) (kb_chunks d) \<noteq> []
              \<and> vssSearch senv qe
                   (min (limitOf options * 3)
                      (int (length (filter (\<lambda>c. c_embedding c \<noteq> None) (kb_chunks d))))) = Inl err
           \<longrightarrow> search senv query options w
                 = Inr (take (nat (limitOf options))
                         (sortBySimilarity
                            (filter (\<lambda>r. 0 \<le> sr_similarity r)
                               (map (\<lambda>(row, chunkEmbedding).
                                       toResult row (cosineSimilarity qe chunkEmbedding))
                                  (embeddedRows (kb_sources d) (kb_chunks d)))))))
        \<and> (\<forall>results. search senv query options w = Inr results \<longrightarrow> sortedBySimilarity results))"
proof -
  define count where "count = length (filter (\<lambda>c. c_embedding c \<noteq> None) (kb_chunks d))"
  define fetchLimit where "fetchLimit = min (limitOf options * 3) (int count)"
  have unfold: "search senv query options w =
      (if count = 0 then Inr []
       else case vssSearch senv qe fetchLimit of
              Inr rows \<Rightarrow>
                Inr (processAndRankResults
                       (filter (\<lambda>r. sr_similarity r \<ge> minSimilarityOf options)
                          (map (\<lambda>(row, distance). toResult row (vssSimilarity distance)) rows))
                       (limitOf options) (dedupeBySourceOf options))
            | Inl err \<Rightarrow>
                Inr (processAndRankResults
                       (filter (\<lambda>r. sr_similarity r \<ge> minSimilarityOf options)
                          (map (\<lambda>(row, chunkEmbedding).
                                  toResult row (cosineSimilarity qe chunkEmbedding))
                             (embeddedRows (kb_sources d) (kb_chunks d))))
                       (limitOf options) (dedupeBySourceOf options)))"
    using assms
    by (simp add: search_def fallbackSearch_def Let_def count_def fetchLimit_def split: sum.split)
  have count0: "count = 0 \<longleftrightarrow> filter (\<lambda>c. c_embedding c \<noteq> None) (kb_chunks d) = []"
    by (simp add: count_def)
  have high: "search senv query options w = Inr []" if "so_minSimilarity options = Some (11 / 10)"
  proof -
    from that have "minSimilarityOf options = 11 / 10" "1 < minSimilarityOf options"
      by (simp_all add: minSimilarityOf_def)
    then show ?thesis
      unfolding unfold
      by (simp add: filter_vss_above_1 filter_cosine_above_1 processAndRankResults_Nil
          split: sum.split)
  qed
  have sorted: "sortedBySimilarity results" if "search senv query options w = Inr results" for results
    using that unfolding unfold
    by (auto simp: sortedBySimilarity_processAndRankResults sortedBySimilarity_Nil
        split: if_splits sum.splits)
  have zero: "(count = 0 \<longrightarrow> search senv query options w = Inr [])
        \<and> (\<forall>rows. count \<noteq> 0 \<and> vssSearch senv qe fetchLimit = Inr rows
           \<longrightarrow> search senv query options w
                 = Inr (take (nat (limitOf options))
                         (sortBySimilarity
                            (map (\<lambda>(row, distance). toResult row (vssSimilarity distance)) rows))))
        \<and> (\<forall>err. count \<noteq> 0 \<and> vssSearch senv qe fetchLimit = Inl err
           \<longrightarrow> search senv query options w
                 = Inr (take (nat (limitOf options))
                         (sortBySimilarity
                            (filter (\<lambda>r. 0 \<le> sr_similarity r)
                               (map (\<lambda>(row, chunkEmbedding).
                                       toResult row (cosineSimilarity qe chunkEmbedding))
                                  (embeddedRows (kb_sources d) (kb_chunks d)))))))"
    if "so_minSimilarity options = Some 0" "so_dedupeBySource options = Some False"
      "0 \<le> limitOf options"
  proof -
    from that have o: "minSimilarityOf options = 0" "dedupeBySourceOf options = False"
      by (simp_all add: minSimilarityOf_def dedupeBySourceOf_def)
    show ?thesis
      unfolding unfold o
      by (simp add: filter_vss_at_0 processAndRankResults_all [OF that(3)])
  qed
  from high zero sorted show ?thesis
    unfolding count0 fetchLimit_def count_def by blast
qed

theorem search_thresholds_witness:
  "db (oneChunkWorld [1, 0]) = Some (oneChunkDb [1, 0])
   \<and> ollamaAvailable (oneChunkWorld [1, 0])
   \<and> generateEmbedding unitQueryEnv ''q'' = Some [1, 0]
   \<and> so_minSimilarity (searchOptions (11 / 10)) = Some (11 / 10)
   \<and> search unitQueryEnv ''q'' (searchOptions (11 / 10)) (oneChunkWorld [1, 0]) = Inr []
   \<and> so_minSimilarity (searchOptions 0) = Some 0
   \<and> so_dedupeBySource (searchOptions 0) = Some False
   \<and> 0 \<le> limitOf (searchOptions 0)
   \<and> search unitQueryEnv ''q'' (searchOptions 0) (oneChunkWorld [1, 0])
       = Inr [\<lparr>sr_chunk_id = 1, sr_source_id = ''kb-999000-xyz789'',
                sr_source_url = Some ''https://example.com/a'', sr_source_title = Some ''A'',
                sr_source_type = Article, sr_content = ''stored text'', sr_similarity = 1\<rparr>]
   \<and> search (indexedEnv (4 / 5)) ''q'' (searchOptions 0) (oneChunkWorld [3 / 5, 4 / 5])
       = Inr [\<lparr>sr_chunk_id = 1, sr_source_id = ''kb-999000-xyz789'',
                sr_source_url = Some ''https://example.com/a'', sr_source_title = Some ''A'',
                sr_source_type = Article, sr_content = ''stored text'', sr_similarity = 17 / 25\<rparr>]
   \<and> db storedWorld = Some \<lparr>kb_sources = [storedSource], kb_chunks = [], next_chunk_id = 1\<rparr>
   \<and> search unitQueryEnv ''q'' (searchOptions 0) storedWorld = Inr []"
proof -
  have d: "db (oneChunkWorld e) = Some (oneChunkDb e)" for e
    by (simp add: oneChunkWorld_def)
  have a: "ollamaAvailable (oneChunkWorld e)" for e
    by (simp add: oneChunkWorld_def)
  have g: "generateEmbedding unitQueryEnv ''q'' = Some [1, 0]"
    by (simp add: unitQueryEnv_def)
  have gi: "generateEmbedding (indexedEnv (4 / 5)) ''q'' = Some [1, 0]"
    by (simp add: indexedEnv_def)
  have o1: "so_minSimilarity (searchOptions (11 / 10)) = Some (11 / 10)"
    by (simp add: searchOptions_def)
  have o2: "so_minSimilarity (searchOptions 0) = Some 0"
    "so_dedupeBySource (searchOptions 0) = Some False" "0 \<le> limitOf (searchOptions 0)"
    by (simp_all add: searchOptions_def limitOf_def)
  have lim: "limitOf (searchOptions 0) = 10"
    by (simp add: searchOptions_def limitOf_def)
  have c: "filter (\<lambda>c. c_embedding c \<noteq> None) (kb_chunks (oneChunkDb e)) \<noteq> []" for e
    by (simp add: oneChunkDb_def)
  have v: "vssSearch unitQueryEnv [1, 0] k = Inl (SqliteError ''no such table: kb_chunks_vss'')" for k
    by (simp add: unitQueryEnv_def)
  have vi: "vssSearch (indexedEnv (4 / 5)) [1, 0] k
      = Inr [(\<lparr>row_id = 1, row_source_id = ''kb-999000-xyz789'', row_content = ''stored text'',
               row_source_url = Some ''https://example.com/a'', row_source_title = Some ''A'',
               row_source_type = Article\<rparr>, 4 / 5)]" for k
    by (simp add: indexedEnv_def)
  have high: "search unitQueryEnv ''q'' (searchOptions (11 / 10)) (oneChunkWorld [1, 0]) = Inr []"
    using search_thresholds [OF d [of "[1, 0]"] a g, where options = "searchOptions (11 / 10)"] o1 by blast
  have "search unitQueryEnv ''q'' (searchOptions 0) (oneChunkWorld [1, 0])
       = Inr (take (nat (limitOf (searchOptions 0)))
               (sortBySimilarity
                  (filter (\<lambda>r. 0 \<le> sr_similarity r)
                     (map (\<lambda>(row, chunkEmbedding). toResult row (cosineSimilarity [1, 0] chunkEmbedding))
                        (embeddedRows (kb_sources (oneChunkDb [1, 0])) (kb_chunks (oneChunkDb [1, 0])))))))"
    using search_thresholds [OF d [of "[1, 0]"] a g, where options = "searchOptions 0"] o2 c v by blast
  then have zero: "search unitQueryEnv ''q'' (searchOptions 0) (oneChunkWorld [1, 0])
       = Inr [\<lparr>sr_chunk_id = 1, sr_source_id = ''kb-999000-xyz789'',
                sr_source_url = Some ''https://example.com/a'', sr_source_title = Some ''A'',
                sr_source_type = Article, sr_content = ''stored text'', sr_similarity = 1\<rparr>]"
    by (simp add: embeddedRows_oneChunkDb cosineSimilarity_example_same toResult_def
        sortBySimilarity_def lim)
  have "search (indexedEnv (4 / 5)) ''q'' (searchOptions 0) (oneChunkWorld [3 / 5, 4 / 5])
       = Inr (take (nat (limitOf (searchOptions 0)))
               (sortBySimilarity
                  (map (\<lambda>(row, distance). toResult row (vssSimilarity distance))
                     [(\<lparr>row_id = 1, row_source_id = ''kb-999000-xyz789'', row_content = ''stored text'',
                        row_source_url = Some ''https://example.com/a'', row_source_title = Some ''A'',
                        row_source_type = Article\<rparr>, 4 / 5)])))"
    using search_thresholds [OF d [of "[3 / 5, 4 / 5]"] a gi, where options = "searchOptions 0"] o2 c vi by blast
  then have indexed: "search (indexedEnv (4 / 5)) ''q'' (searchOptions 0) (oneChunkWorld [3 / 5, 4 / 5])
       = Inr [\<lparr>sr_chunk_id = 1, sr_source_id = ''kb-999000-xyz789'',
                sr_source_url = Some ''https://example.com/a'', sr_source_title = Some ''A'',
                sr_source_type = Article, sr_content = ''stored text'', sr_similarity = 17 / 25\<rparr>]"
    by (simp add: toResult_def vssSimilarity_def sortBySimilarity_def lim)
  have ds: "db storedWorld = Some \<lparr>kb_sources = [storedSource], kb_chunks = [], next_chunk_id = 1\<rparr>"
    and as: "ollamaAvailable storedWorld"
    by (simp_all add: storedWorld_def)
  have empty: "search unitQueryEnv ''q'' (searchOptions 0) storedWorld = Inr []"
    using search_thresholds [OF ds as g, where options = "searchOptions 0"] o2 by simp
  from d [of "[1, 0]"] a [of "[1, 0]"] g o1 high o2 zero indexed ds empty show ?thesis
    by (simp only: simp_thms)
qed

text \<open>
  C5 as stated fails on the fallback path: a chunk whose embedding is opposite to the
  query has cosine similarity -1 and is filtered out at \<open>minSimilarity = 0\<close>.
\<close>

theorem search_at_zero_counterexample:
  "ollamaAvailable (oneChunkWorld [- 1, 0])
   \<and> generateEmbedding unitQueryEnv ''q'' = Some [1, 0]
   \<and> db (oneChunkWorld [- 1, 0]) = Some (oneChunkDb [- 1, 0])
   \<and> length (filter (\<lambda>c. c_embedding c \<noteq> None) (kb_chunks (oneChunkDb [- 1, 0]))) = 1
   \<and> length (embeddedRows (kb_sources (oneChunkDb [- 1, 0])) (kb_chunks (oneChunkDb [- 1, 0]))) = 1
   \<and> searchOptions 0
       = \<lparr>so_limit = Some 10, so_minSimilarity = Some 0, so_dedupeBySource = Some False\<rparr>
   \<and> search unitQueryEnv ''q'' (searchOptions 0) (oneChunkWorld [- 1, 0]) = Inr []"
proof -
  have n: "length (filter (\<lambda>c. c_embedding c \<noteq> None) (kb_chunks (oneChunkDb [- 1, 0]))) = 1"
    by (simp add: oneChunkDb_def)
  have s: "search unitQueryEnv ''q'' (searchOptions 0) (oneChunkWorld [- 1, 0]) = Inr []"
    using n
    by (simp add: search_def fallbackSearch_def Let_def oneChunkWorld_def unitQueryEnv_def
        embeddedRows_oneChunkDb cosineSimilarity_example_neg toResult_def
        processAndRankResults_Nil minSimilarityOf_def searchOptions_def)
  have w: "ollamaAvailable (oneChunkWorld [- 1, 0])"
    "db (oneChunkWorld [- 1, 0]) = Some (oneChunkDb [- 1, 0])"
    by (simp_all add: oneChunkWorld_def)
  have g: "generateEmbedding unitQueryEnv ''q'' = Some [1, 0]"
    by (simp add: unitQueryEnv_def)
  have o: "searchOptions 0
       = \<lparr>so_limit = Some 10, so_minSimilarity = Some 0, so_dedupeBySource = Some False\<rparr>"
    by (simp add: searchOptions_def)
  have e: "length (embeddedRows (kb_sources (oneChunkDb [- 1, 0])) (kb_chunks (oneChunkDb [- 1, 0]))) = 1"
    by (simp add: embeddedRows_oneChunkDb)
  from n s w g o e show ?thesis by blast
qed

text \<open>
  C6. When the database holds a source whose URL is the normalised form of \<open>url\<close>,
  \<open>ingestUrl\<close> of \<open>url\<close>, and \<open>ingestContent\<close> with \<open>url\<close> as its option, return the
  failure \<open>duplicate_url\<close> with the id of that source (the first one found), and the
  database, sources and chunks, is as it was.
\<close>

theorem duplicate_url_rejected:
  assumes "db w = Some d"
    and "find (\<lambda>row. s_url row = Some (normalizeUrl (urlApi env) url)) (kb_sources d) = Some existing"
  shows "(\<exists>result w'. ingestUrl env url options w = Some (Inr result, w')
            \<and> \<not> r_success result \<and> r_reason result = Some duplicate_url
            \<and> r_existingSourceId result = Some (s_id existing) \<and> db w' = db w)
       \<and> (o_url options = Some url \<and> url \<noteq> [] \<longrightarrow>
            (\<exists>result w'. ingestContent env content options w = Some (Inr result, w')
               \<and> \<not> r_success result \<and> r_reason result = Some duplicate_url
               \<and> r_existingSourceId result = Some (s_id existing) \<and> db w' = db w))"
proof -
  obtain w1 where w1: "acquire env ''ingest'' w = Inr w1" "db w1 = db w"
    using acquire_succeeds [of env "''ingest''" w] by blast
  have found: "getSourceByUrl (normalizeUrl (urlApi env) url) w1 = Inr (Some existing)"
    using assms w1(2) by (simp add: getSourceByUrl_def)
  have dup: "\<not> r_success (duplicateUrlResult existing)"
    "r_reason (duplicateUrlResult existing) = Some duplicate_url"
    "r_existingSourceId (duplicateUrlResult existing) = Some (s_id existing)"
    by (simp_all add: duplicateUrlResult_def failed_def)
  have unchanged: "db (release ''ingest'' w1) = db w"
    using w1(2) by (simp add: release_db)
  have "ingestUrl_try env url options False w1 = Some (Inr (duplicateUrlResult existing), w1)"
    using found by (simp add: ingestUrl_try_def Let_def)
  then have "ingestUrl env url options w
               = Some (Inr (duplicateUrlResult existing), release ''ingest'' w1)"
    using w1(1) by (simp add: ingestUrl_def ingestUrlInternal_def catchFinally_result)
  with dup unchanged have first: "\<exists>result w'. ingestUrl env url options w = Some (Inr result, w')
            \<and> \<not> r_success result \<and> r_reason result = Some duplicate_url
            \<and> r_existingSourceId result = Some (s_id existing) \<and> db w' = db w"
    by blast
  have second: "\<exists>result w'. ingestContent env content options w = Some (Inr result, w')
               \<and> \<not> r_success result \<and> r_reason result = Some duplicate_url
               \<and> r_existingSourceId result = Some (s_id existing) \<and> db w' = db w"
    if "o_url options = Some url" "url \<noteq> []"
  proof -
    have "ingestContent_try env content options False w1
            = Some (Inr (duplicateUrlResult existing), w1)"
      using found that by (simp add: ingestContent_try_def Let_def)
    then have "ingestContent env content options w
                 = Some (Inr (duplicateUrlResult existing), release ''ingest'' w1)"
      using w1(1) by (simp add: ingestContent_def ingestContentInternal_def catchFinally_result)
    with dup unchanged show ?thesis by blast
  qed
  from first second show ?thesis by blast
qed

theorem duplicate_url_rejected_witness:
  "db storedWorld = Some \<lparr>kb_sources = [storedSource], kb_chunks = [], next_chunk_id = 1\<rparr>
   \<and> find (\<lambda>row. s_url row = Some (normalizeUrl (urlApi exampleEnv) ''https://www.example.com/a/''))
        (kb_sources \<lparr>kb_sources = [storedSource], kb_chunks = [], next_chunk_id = 1\<rparr>)
       = Some storedSource
   \<and> o_url sameUrlOptions = Some ''https://www.example.com/a/''
   \<and> (\<exists>result w'. ingestUrl exampleEnv ''https://www.example.com/a/'' sameUrlOptions storedWorld
                      = Some (Inr result, w')
          \<and> r_reason result = Some duplicate_url
          \<and> r_existingSourceId result = Some ''kb-999000-xyz789'' \<and> db w' = db storedWorld)
   \<and> (\<exists>result w'. ingestContent exampleEnv ''some other text'' sameUrlOptions storedWorld
                      = Some (Inr result, w')
          \<and> r_reason result = Some duplicate_url
          \<and> r_existingSourceId result = Some ''kb-999000-xyz789'' \<and> db w' = db storedWorld)"
proof -
  have n: "normalizeUrl serialisedUrlApi ''https://www.example.com/a/'' = ''https://example.com/a''"
    by code_simp
  have d: "db storedWorld = Some \<lparr>kb_sources = [storedSource], kb_chunks = [], next_chunk_id = 1\<rparr>"
    by (simp add: storedWorld_def)
  have f: "find (\<lambda>row. s_url row = Some (normalizeUrl (urlApi exampleEnv) ''https://www.example.com/a/''))
        (kb_sources \<lparr>kb_sources = [storedSource], kb_chunks = [], next_chunk_id = 1\<rparr>)
       = Some storedSource"
    using n by (simp add: exampleEnv_def storedSource_def)
  have o: "o_url sameUrlOptions = Some ''https://www.example.com/a/''"
    by (simp add: sameUrlOptions_def)
  have i: "s_id storedSource = ''kb-999000-xyz789''"
    by (simp add: storedSource_def)
  from duplicate_url_rejected [OF d f, of sameUrlOptions "''some other text''"] d f o i
  show ?thesis by auto
qed

text \<open>
  C7 (as amended). For a chunk whose tentative end is before the end of the text: if the
  window holds a sentence-terminal boundary, the cut is right after the white space of the
  first one; if it holds none, the cut is right after the last white-space character of the
  window; if it holds no white space either, the cut is at the tentative end.
\<close>

theorem cutEnd_boundaries:
  assumes "position + chunkSize < length text"
  shows "(\<forall>k. isSentenceBoundaryAt (windowOf text chunkSize overlap position) k
              \<and> (\<forall>j<k. \<not> isSentenceBoundaryAt (windowOf text chunkSize overlap position) j)
            \<longrightarrow> cutEnd text chunkSize overlap position
                  = windowStartOf text chunkSize overlap position + k
                    + whiteSpaceRun (windowOf text chunkSize overlap position) k)
       \<and> ((\<forall>j. \<not> isSentenceBoundaryAt (windowOf text chunkSize overlap position) j)
            \<longrightarrow> (\<forall>k. isLastWhiteSpaceAt (windowOf text chunkSize overlap position) k
                  \<longrightarrow> cutEnd text chunkSize overlap position
                        = windowStartOf text chunkSize overlap position + k + 1))
       \<and> ((\<forall>j. \<not> isSentenceBoundaryAt (windowOf text chunkSize overlap position) j)
            \<and> list_all (\<lambda>d. \<not> isWhiteSpace d) (windowOf text chunkSize overlap position)
            \<longrightarrow> cutEnd text chunkSize overlap position = position + chunkSize)"
proof -
  define w where "w = windowOf text chunkSize overlap position"
  define ws where "ws = windowStartOf text chunkSize overlap position"
  have e: "min (position + chunkSize) (length text) = position + chunkSize"
    using assms by simp
  have unfold: "cutEnd text chunkSize overlap position =
      (case SENTENCE_BOUNDARY_exec w of
         Some (index, len) \<Rightarrow> ws + index + len
       | None \<Rightarrow> (case wordBoundary_exec w of
                    Some index \<Rightarrow> ws + index + 1 | None \<Rightarrow> position + chunkSize))"
    using assms
    by (simp only: cutEnd_def Let_def e w_def ws_def windowOf_def windowStartOf_def if_True)
  have first: "cutEnd text chunkSize overlap position = ws + k + whiteSpaceRun w k"
    if "isSentenceBoundaryAt w k" "\<forall>j<k. \<not> isSentenceBoundaryAt w j" for k
  proof (cases "SENTENCE_BOUNDARY_exec w")
    case None
    with that(1) sentenceBoundaryFrom_None [of 0 w k] show ?thesis
      by (simp add: SENTENCE_BOUNDARY_exec_def)
  next
    case (Some kn)
    obtain k0 n where kn: "kn = (k0, n)" by (cases kn)
    with Some sentenceBoundaryFrom_Some [of 0 w k0 n]
    have k0: "isSentenceBoundaryAt w k0" "\<forall>j<k0. \<not> isSentenceBoundaryAt w j" "n = whiteSpaceRun w k0"
      by (auto simp: SENTENCE_BOUNDARY_exec_def)
    from firstSentenceBoundary_unique [OF k0(1,2) that] have "k0 = k" .
    with Some kn k0(3) unfold show ?thesis by simp
  qed
  have noSentence: "SENTENCE_BOUNDARY_exec w = None" if "\<forall>j. \<not> isSentenceBoundaryAt w j"
  proof (cases "SENTENCE_BOUNDARY_exec w")
    case (Some kn)
    obtain k0 n where "kn = (k0, n)" by (cases kn)
    with Some sentenceBoundaryFrom_Some [of 0 w k0 n] that show ?thesis
      by (auto simp: SENTENCE_BOUNDARY_exec_def)
  qed simp
  have word: "cutEnd text chunkSize overlap position = ws + k + 1"
    if "\<forall>j. \<not> isSentenceBoundaryAt w j" "isLastWhiteSpaceAt w k" for k
  proof (cases "wordBoundary_exec w")
    case None
    from wordBoundaryFrom_None [of 0 w] None that(2) show ?thesis
      by (auto simp: wordBoundary_exec_def isLastWhiteSpaceAt_def list_all_length)
  next
    case (Some k0)
    with wordBoundaryFrom_Some [of 0 w k0] have "isLastWhiteSpaceAt w k0"
      by (auto simp: wordBoundary_exec_def)
    from isLastWhiteSpaceAt_unique [OF this that(2)] Some noSentence [OF that(1)] unfold
    show ?thesis by simp
  qed
  have none: "cutEnd text chunkSize overlap position = position + chunkSize"
    if "\<forall>j. \<not> isSentenceBoundaryAt w j" "list_all (\<lambda>d. \<not> isWhiteSpace d) w"
  proof (cases "wordBoundary_exec w")
    case None
    with noSentence [OF that(1)] unfold show ?thesis by simp
  next
    case (Some k0)
    with wordBoundaryFrom_Some [of 0 w k0] have "isLastWhiteSpaceAt w k0"
      by (auto simp: wordBoundary_exec_def)
    with that(2) show ?thesis
      by (auto simp: isLastWhiteSpaceAt_def list_all_length)
  qed
  from first word none show ?thesis
    unfolding w_def ws_def by blast
qed

theorem cutEnd_boundaries_witness:
  "(0::nat) + 4 < length ''a. b. cdefgh''
   \<and> isSentenceBoundaryAt (windowOf ''a. b. cdefgh'' 4 4 0) 2
   \<and> cutEnd ''a. b. cdefgh'' 4 4 0
       = windowStartOf ''a. b. cdefgh'' 4 4 0 + 2 + whiteSpaceRun (windowOf ''a. b. cdefgh'' 4 4 0) 2
   \<and> cutEnd ''a. b. cdefgh'' 4 4 0 = 3
   \<and> (0::nat) + 6 < length ''hello world foo''
   \<and> isLastWhiteSpaceAt (windowOf ''hello world foo'' 6 2 0) 1
   \<and> cutEnd ''hello world foo'' 6 2 0 = windowStartOf ''hello world foo'' 6 2 0 + 1 + 1
   \<and> cutEnd ''hello world foo'' 6 2 0 = 6
   \<and> (0::nat) + 4 < length ''abcdefghij''
   \<and> list_all (\<lambda>d. \<not> isWhiteSpace d) (windowOf ''abcdefghij'' 4 2 0)
   \<and> cutEnd ''abcdefghij'' 4 2 0 = 0 + 4"
proof -
  have len: "(0::nat) + 4 < length ''a. b. cdefgh''" by simp
  have b: "isSentenceBoundaryAt (windowOf ''a. b. cdefgh'' 4 4 0) 2"
    by code_simp
  have f: "\<forall>j<2. \<not> isSentenceBoundaryAt (windowOf ''a. b. cdefgh'' 4 4 0) j"
    by (simp add: isSentenceBoundaryAt_def less_Suc_eq numeral_2_eq_2 windowOf_def slice_def isSentenceEnd_def)
  have r: "windowStartOf ''a. b. cdefgh'' 4 4 0 + 2 + whiteSpaceRun (windowOf ''a. b. cdefgh'' 4 4 0) 2 = 3"
    by code_simp
  have first: "cutEnd ''a. b. cdefgh'' 4 4 0
       = windowStartOf ''a. b. cdefgh'' 4 4 0 + 2 + whiteSpaceRun (windowOf ''a. b. cdefgh'' 4 4 0) 2"
    using cutEnd_boundaries [OF len, of 4] b f by blast
  have w2: "windowOf ''hello world foo'' 6 2 0 = ''o wo''" by code_simp
  have len2: "(0::nat) + 6 < length ''hello world foo''" by simp
  have "sentenceBoundaryFrom 0 ''o wo'' = None" by code_simp
  then have none2: "\<not> isSentenceBoundaryAt (windowOf ''hello world foo'' 6 2 0) j" for j
    unfolding w2 by (rule sentenceBoundaryFrom_None)
  have l2: "isLastWhiteSpaceAt (windowOf ''hello world foo'' 6 2 0) 1"
    by code_simp
  have s2: "windowStartOf ''hello world foo'' 6 2 0 + 1 + 1 = 6" by code_simp
  have second: "cutEnd ''hello world foo'' 6 2 0 = windowStartOf ''hello world foo'' 6 2 0 + 1 + 1"
    using cutEnd_boundaries [OF len2, of 2] none2 l2 by blast
  have w3: "windowOf ''abcdefghij'' 4 2 0 = ''cdef''" by code_simp
  have len3: "(0::nat) + 4 < length ''abcdefghij''" by simp
  have a3: "list_all (\<lambda>d. \<not> isWhiteSpace d) (windowOf ''abcdefghij'' 4 2 0)"
    by code_simp
  have "sentenceBoundaryFrom 0 ''cdef'' = None" by code_simp
  then have none3: "\<not> isSentenceBoundaryAt (windowOf ''abcdefghij'' 4 2 0) j" for j
    unfolding w3 by (rule sentenceBoundaryFrom_None)
  have third: "cutEnd ''abcdefghij'' 4 2 0 = 0 + 4"
    using cutEnd_boundaries [OF len3, of 2] none3 a3 by blast
  from len b first r len2 l2 second s2 len3 a3 third show ?thesis
    by (simp only: simp_thms)
qed

text \<open>
  C7 as stated fails: with two sentence boundaries in the window the cut is after the
  first, not the last.
\<close>

theorem cutEnd_last_boundary_counterexample:
  "(0::nat) + 4 < length ''a. b. cdefgh''
   \<and> isLastSentenceBoundaryAt (windowOf ''a. b. cdefgh'' 4 4 0) 5
   \<and> cutEnd ''a. b. cdefgh'' 4 4 0
       \<noteq> windowStartOf ''a. b. cdefgh'' 4 4 0 + 5 + whiteSpaceRun (windowOf ''a. b. cdefgh'' 4 4 0) 5
   \<and> cutEnd ''a. b. cdefgh'' 4 4 0 = 3"
  by code_simp

text \<open>
  C8. For content that meets its source type's minimum length, \<open>validateContent\<close> rejects
  with the error-page reason exactly when at least two distinct phrases of
  \<open>ERROR_PATTERNS\<close> occur in the content, ignoring case; one phrase alone never does.
\<close>

theorem validateContent_error_page_iff:
  assumes "MIN_LENGTHS type \<le> length content"
  shows "rejectedAsErrorPage (validateContent content type)
           \<longleftrightarrow> 2 \<le> card {p \<in> set ERROR_PATTERNS. occursIgnoringCase p content}"
proof -
  have long: "\<not> length content < (if MIN_LENGTHS type = 0 then 100 else MIN_LENGTHS type)"
    using assms MIN_LENGTHS_pos [of type] by simp
  show ?thesis
    unfolding validateContent_def Let_def rejectedAsErrorPage_def
    using long by (simp add: errorSignals_card)
qed

theorem validateContent_error_page_iff_witness:
  "MIN_LENGTHS Text \<le> length ''Access Denied. Solve the CAPTCHA''
   \<and> rejectedAsErrorPage (validateContent ''Access Denied. Solve the CAPTCHA'' Text)
   \<and> 2 \<le> card {p \<in> set ERROR_PATTERNS. occursIgnoringCase p ''Access Denied. Solve the CAPTCHA''}"
proof -
  have len: "MIN_LENGTHS Text \<le> length ''Access Denied. Solve the CAPTCHA''"
    by simp
  have rej: "rejectedAsErrorPage (validateContent ''Access Denied. Solve the CAPTCHA'' Text)"
    by code_simp
  from rej validateContent_error_page_iff [OF len] len show ?thesis
    by blast
qed

text \<open>
  C9. Each of \<open>ingestUrl\<close>, \<open>updateUrl\<close>, \<open>ingestContent\<close> and \<open>updateContent\<close> returns a
  result, whatever the state and whatever the extractors, the embedding provider and the
  storage calls do (a thrown error becomes the \<open>unknown\<close> outcome), and when it returns
  the lock file of \<open>ingest\<close> is gone.
\<close>

theorem ingestion_releases_lock:
  "(\<exists>result w'. ingestUrl env url options w = Some (Inr result, w') \<and> lockFiles w' ''ingest.lock'' = None)
   \<and> (\<exists>result w'. updateUrl env url options w = Some (Inr result, w') \<and> lockFiles w' ''ingest.lock'' = None)
   \<and> (\<exists>result w'. ingestContent env content options w = Some (Inr result, w')
         \<and> lockFiles w' ''ingest.lock'' = None)
   \<and> (\<exists>result w'. updateContent env content options w = Some (Inr result, w')
         \<and> lockFiles w' ''ingest.lock'' = None)"
  unfolding ingestUrl_def updateUrl_def ingestContent_def updateContent_def
  using ingestUrlInternal_unlocks ingestContentInternal_unlocks by blast

text \<open>
  C10. For a \<open>Float32Array\<close> that spans its whole backing buffer, serialising and then
  deserialising returns an array of the same length with the same components.
\<close>

theorem deserialize_serialize_Float32:
  assumes "f32_byteOffset v = 0" and "length (f32_buffer v) = 4 * f32_length v"
  shows "\<exists>v'. deserializeFloat32 (serializeFloat32 v) = Inr v'
            \<and> f32_length v' = f32_length v \<and> f32_elements v' = f32_elements v"
  using assms
  by (simp add: deserializeFloat32_def serializeFloat32_def f32_elements_def f32_get_def)

theorem deserialize_serialize_Float32_witness:
  "f32_byteOffset \<lparr>f32_buffer = [0, 0, 128, 63, 0, 0, 0, 64], f32_byteOffset = 0, f32_length = 2\<rparr> = 0
   \<and> length (f32_buffer \<lparr>f32_buffer = [0, 0, 128, 63, 0, 0, 0, 64], f32_byteOffset = 0, f32_length = 2\<rparr>)
       = 4 * f32_length \<lparr>f32_buffer = [0, 0, 128, 63, 0, 0, 0, 64], f32_byteOffset = 0, f32_length = 2\<rparr>
   \<and> (\<exists>v'. deserializeFloat32
              (serializeFloat32 \<lparr>f32_buffer = [0, 0, 128, 63, 0, 0, 0, 64], f32_byteOffset = 0, f32_length = 2\<rparr>)
              = Inr v'
          \<and> f32_length v' = 2
          \<and> f32_elements v'
              = f32_elements \<lparr>f32_buffer = [0, 0, 128, 63, 0, 0, 0, 64], f32_byteOffset = 0, f32_length = 2\<rparr>)"
  using deserialize_serialize_Float32
    [of "\<lparr>f32_buffer = [0, 0, 128, 63, 0, 0, 0, 64], f32_byteOffset = 0, f32_length = 2\<rparr>"]
  by simp

end
